theory Spec2Isabelle
  imports Complex_Main "HOL-Library.Sublist"
begin

section \<open>Python values used by arxiv\_scraper.py\<close>

text \<open>
  A Python \<open>str\<close> is modelled as a list of code points below 256 (one \<open>char\<close> per code
  point), so \<open>str.lower\<close> and the whitespace of \<open>str.strip\<close> are the ones Python has on
  that range. Exceptions are values of \<open>pyexc\<close>; a function that can raise returns
  \<open>pyexc + 'a\<close> with \<open>Inl\<close> for the exception.
\<close>

datatype pyexc =
    AttributeError
  | KeyError string
  | ValueError
  | UnboundLocalError
  | HTTPError_exc int
  | URLError_exc
  | ParseError_exc

definition isspace :: "char \<Rightarrow> bool" where
  "isspace c =
     (let n = (of_char c :: nat)
      in (9 \<le> n \<and> n \<le> 13) \<or> (28 \<le> n \<and> n \<le> 32) \<or> n = 133 \<or> n = 160)"

definition lower_char :: "char \<Rightarrow> char" where
  "lower_char c =
     (let n = (of_char c :: nat)
      in if (65 \<le> n \<and> n \<le> 90) \<or> (192 \<le> n \<and> n \<le> 222 \<and> n \<noteq> 215)
         then char_of (n + 32) else c)"

definition str_strip :: "string \<Rightarrow> string" where
  "str_strip s = rev (dropWhile isspace (rev (dropWhile isspace s)))"

definition str_lower :: "string \<Rightarrow> string" where
  "str_lower s = map lower_char s"

text \<open>\<open>s.replace("\n", " ")\<close>: both arguments are one character long, so the replacement
  acts on each character by itself.\<close>

definition replace_newline :: "string \<Rightarrow> string" where
  "replace_newline s = map (\<lambda>c. if c = CHR 0x0A then CHR '' '' else c) s"

text \<open>\<open>w in s\<close> for two strings: \<open>w\<close> occurs in \<open>s\<close> as a contiguous run.\<close>

fun starts_with :: "string \<Rightarrow> string \<Rightarrow> bool" where
  "starts_with [] s = True"
| "starts_with (a # w) [] = False"
| "starts_with (a # w) (b # s) = (a = b \<and> starts_with w s)"

fun str_in :: "string \<Rightarrow> string \<Rightarrow> bool" where
  "str_in w [] = (w = [])"
| "str_in w (c # s) = (starts_with w (c # s) \<or> str_in w s)"

text \<open>\<open>sep.join(xs)\<close>.\<close>

fun join :: "string \<Rightarrow> string list \<Rightarrow> string" where
  "join sep [] = []"
| "join sep [x] = x"
| "join sep (x # y # xs) = x @ sep @ join sep (y # xs)"

text \<open>The values a record dictionary holds: a string or a list of strings.\<close>

datatype pyval = Str string | StrList "string list"

type_synonym dict = "(string \<times> pyval) list"

text \<open>\<open>record[key]\<close>: a missing key raises \<open>KeyError\<close>.\<close>

definition getitem :: "dict \<Rightarrow> string \<Rightarrow> pyexc + pyval" where
  "getitem d key = (case map_of d key of None \<Rightarrow> Inl (KeyError key) | Some v \<Rightarrow> Inr v)"

text \<open>\<open>w in v\<close>: substring test on a string, membership test on a list.\<close>

fun py_in :: "string \<Rightarrow> pyval \<Rightarrow> bool" where
  "py_in w (Str s) = str_in w s"
| "py_in w (StrList xs) = (w \<in> set xs)"

section \<open>ElementTree elements\<close>

text \<open>An element has a tag (with its namespace in braces), a text that may be \<open>None\<close>, and
  children. \<open>find\<close> with a single tag gives the first child of that tag or \<open>None\<close>;
  \<open>findall\<close> with a path \<open>a/b\<close> gives the \<open>b\<close> children of the \<open>a\<close> children, in document
  order.\<close>

datatype xml = Element (xml_tag: string) (xml_text: "string option") (xml_children: "xml list")

definition xml_find :: "xml \<Rightarrow> string \<Rightarrow> xml option" where
  "xml_find e t = List.find (\<lambda>c. xml_tag c = t) (xml_children e)"

definition xml_findall :: "xml \<Rightarrow> string \<Rightarrow> string \<Rightarrow> xml list" where
  "xml_findall e a b =
     concat (map (\<lambda>p. filter (\<lambda>c. xml_tag c = b) (xml_children p))
                 (filter (\<lambda>c. xml_tag c = a) (xml_children e)))"

definition OAI :: string where
  "OAI = ''{http://www.openarchives.org/OAI/2.0/}''"

definition ARXIV :: string where
  "ARXIV = ''{http://arxiv.org/OAI/arXiv/}''"

definition BASE :: string where
  "BASE = ''http://export.arxiv.org/oai2?verb=ListRecords&''"

section \<open>class Record\<close>

text \<open>The attributes of a \<open>Record\<close> object, each prefixed with \<open>r_\<close>. \<open>self.xml\<close> is the
  constructor's argument, which is \<open>None\<close> when the caller's \<open>find\<close> found nothing.\<close>

record Record =
  r_xml :: "xml option"
  r_id :: string
  r_url :: string
  r_title :: string
  r_abstract :: string
  r_cats :: string
  r_created :: string
  r_updated :: string
  r_doi :: string
  r_authors :: "string list"
  r_affiliation :: "string list"

text \<open>\<open>_get_text\<close>: the bare \<open>except\<close> catches the \<open>AttributeError\<close> of \<open>None.find\<close>,
  \<open>None.text\<close> and \<open>None.strip\<close>.\<close>

definition get_text :: "xml option \<Rightarrow> string \<Rightarrow> string \<Rightarrow> string" where
  "get_text x namespace t =
     (case x of
        None \<Rightarrow> []
      | Some e \<Rightarrow>
          (case xml_find e (namespace @ t) of
             None \<Rightarrow> []
           | Some c \<Rightarrow>
               (case xml_text c of
                  None \<Rightarrow> []
                | Some s \<Rightarrow> replace_newline (str_lower (str_strip s)))))"

text \<open>\<open>_get_name\<close>: \<open>parent\<close> is an element that \<open>findall\<close> returned.\<close>

definition get_name :: "xml \<Rightarrow> string \<Rightarrow> string" where
  "get_name parent attribute =
     (case xml_find parent (ARXIV @ attribute) of
        None \<Rightarrow> ''n/a''
      | Some c \<Rightarrow> (case xml_text c of None \<Rightarrow> ''n/a'' | Some s \<Rightarrow> str_lower s))"

text \<open>\<open>_get_authors\<close>: \<open>self.xml.findall\<close> is outside any \<open>try\<close>, so \<open>None\<close> raises.\<close>

definition get_authors :: "xml option \<Rightarrow> pyexc + string list" where
  "get_authors x =
     (case x of
        None \<Rightarrow> Inl AttributeError
      | Some e \<Rightarrow>
          (let authors_xml = xml_findall e (ARXIV @ ''authors'') (ARXIV @ ''author'');
               last_names = map (\<lambda>author. get_name author ''keyname'') authors_xml;
               first_names = map (\<lambda>author. get_name author ''forenames'') authors_xml;
               full_names = map (\<lambda>(a, b). a @ '' '' @ b) (zip first_names last_names)
           in Inr full_names))"

text \<open>\<open>_get_affiliation\<close>: the comprehension is inside the \<open>try\<close>; one author without an
  affiliation element, or with one whose text is \<open>None\<close>, empties the whole list.\<close>

fun affiliation_texts :: "xml list \<Rightarrow> string list option" where
  "affiliation_texts [] = Some []"
| "affiliation_texts (author # rest) =
     (case xml_find author (ARXIV @ ''affiliation'') of
        None \<Rightarrow> None
      | Some c \<Rightarrow>
          (case xml_text c of
             None \<Rightarrow> None
           | Some s \<Rightarrow>
               (case affiliation_texts rest of
                  None \<Rightarrow> None
                | Some xs \<Rightarrow> Some (str_lower s # xs))))"

definition get_affiliation :: "xml option \<Rightarrow> pyexc + string list" where
  "get_affiliation x =
     (case x of
        None \<Rightarrow> Inl AttributeError
      | Some e \<Rightarrow>
          (case affiliation_texts (xml_findall e (ARXIV @ ''authors'') (ARXIV @ ''author'')) of
             None \<Rightarrow> Inr []
           | Some xs \<Rightarrow> Inr xs))"

text \<open>\<open>Record.__init__\<close>, in the order of its assignments.\<close>

definition Record_init :: "xml option \<Rightarrow> pyexc + Record" where
  "Record_init xml_record =
     (let i = get_text xml_record ARXIV ''id'' in
      case get_authors xml_record of
        Inl e \<Rightarrow> Inl e
      | Inr au \<Rightarrow>
          (case get_affiliation xml_record of
             Inl e \<Rightarrow> Inl e
           | Inr af \<Rightarrow>
               Inr \<lparr> r_xml = xml_record,
                     r_id = i,
                     r_url = ''https://arxiv.org/abs/'' @ i,
                     r_title = get_text xml_record ARXIV ''title'',
                     r_abstract = get_text xml_record ARXIV ''abstract'',
                     r_cats = get_text xml_record ARXIV ''categories'',
                     r_created = get_text xml_record ARXIV ''created'',
                     r_updated = get_text xml_record ARXIV ''updated'',
                     r_doi = get_text xml_record ARXIV ''doi'',
                     r_authors = au,
                     r_affiliation = af \<rparr>))"

text \<open>\<open>Record.output\<close>: the dictionary, in the order of its keys.\<close>

definition Record_output :: "Record \<Rightarrow> dict" where
  "Record_output r =
     [(''title'', Str (r_title r)),
      (''id'', Str (r_id r)),
      (''abstract'', Str (r_abstract r)),
      (''categories'', Str (r_cats r)),
      (''doi'', Str (r_doi r)),
      (''created'', Str (r_created r)),
      (''updated'', Str (r_updated r)),
      (''authors'', StrList (r_authors r)),
      (''affiliation'', StrList (r_affiliation r)),
      (''url'', Str (r_url r))]"

section \<open>class Scraper\<close>

text \<open>The attributes of a \<open>Scraper\<close> object, each prefixed with \<open>s_\<close>. The filter
  dictionary is an association list in insertion order. \<open>self.keys\<close> is assigned only when
  the filters are not empty, so it is \<open>None\<close> otherwise.\<close>

type_synonym filters = "(string \<times> string list) list"

record Scraper =
  s_cat :: string
  s_t :: int
  s_timeout :: int
  s_f :: string
  s_u :: string
  s_url :: string
  s_filters :: filters
  s_append_all :: bool
  s_keys :: "string list option"

text \<open>\<open>Scraper.__init__\<close>. A date is its day number; \<open>date_str\<close> is \<open>str\<close> on dates, a
  library function taken as a parameter, and \<open>today\<close> is what \<open>datetime.date.today()\<close>
  returns. The local variable \<open>yesterday\<close> is bound only in the branch where \<open>date_from\<close>
  is \<open>None\<close>; reading it unbound raises \<open>UnboundLocalError\<close>. \<open>category\<close> is a string,
  on which \<open>str\<close> and \<open>%s\<close> are the identity.\<close>

definition Scraper_init ::
  "(int \<Rightarrow> string) \<Rightarrow> int \<Rightarrow> string \<Rightarrow> string option \<Rightarrow> string option \<Rightarrow> int \<Rightarrow> int \<Rightarrow>
     filters \<Rightarrow> pyexc + Scraper" where
  "Scraper_init date_str today category date_from date_until t timeout flt =
     (let yesterday = (case date_from of None \<Rightarrow> Some (today - 1) | Some d \<Rightarrow> None);
          f = (case date_from of None \<Rightarrow> date_str (today - 1) | Some d \<Rightarrow> d)
      in case (case date_until of
                 None \<Rightarrow>
                   (case yesterday of
                      None \<Rightarrow> Inl UnboundLocalError
                    | Some y \<Rightarrow> Inr (date_str y))
               | Some d \<Rightarrow> Inr d) of
           Inl e \<Rightarrow> Inl e
         | Inr u \<Rightarrow>
             Inr \<lparr> s_cat = category,
                   s_t = t,
                   s_timeout = timeout,
                   s_f = f,
                   s_u = u,
                   s_url = BASE @ ''from='' @ f @ ''&until='' @ u
                             @ ''&metadataPrefix=arXiv&set='' @ category,
                   s_filters = flt,
                   s_append_all = (flt = []),
                   s_keys = (if flt = [] then None else Some (map fst flt)) \<rparr>)"

subsection \<open>The filter inside \<open>scrape\<close>\<close>

text \<open>The inner loop \<open>for word in self.filters[key]\<close>: \<open>record[key]\<close> is evaluated once for
  each word, and the loop has no \<open>break\<close>.\<close>

fun words_loop :: "dict \<Rightarrow> string \<Rightarrow> string list \<Rightarrow> bool \<Rightarrow> pyexc + bool" where
  "words_loop record key [] save_record = Inr save_record"
| "words_loop record key (word # ws) save_record =
     (case getitem record key of
        Inl e \<Rightarrow> Inl e
      | Inr v \<Rightarrow>
          words_loop record key ws (if py_in (str_lower word) v then True else save_record))"

text \<open>The outer loop \<open>for key in self.keys\<close>.\<close>

fun keys_loop :: "filters \<Rightarrow> dict \<Rightarrow> string list \<Rightarrow> bool \<Rightarrow> pyexc + bool" where
  "keys_loop flt record [] save_record = Inr save_record"
| "keys_loop flt record (key # ks) save_record =
     (case map_of flt key of
        None \<Rightarrow> Inl (KeyError key)
      | Some ws \<Rightarrow>
          (case words_loop record key ws save_record of
             Inl e \<Rightarrow> Inl e
           | Inr b \<Rightarrow> keys_loop flt record ks b))"

text \<open>Lines 148 to 158: what one record does to the list \<open>ds\<close>.\<close>

definition append_record :: "Scraper \<Rightarrow> dict list \<Rightarrow> dict \<Rightarrow> pyexc + dict list" where
  "append_record s ds record =
     (if s_append_all s then Inr (ds @ [record])
      else
        (case s_keys s of
           None \<Rightarrow> Inl AttributeError
         | Some ks \<Rightarrow>
             (case keys_loop (s_filters s) record ks False of
                Inl e \<Rightarrow> Inl e
              | Inr save_record \<Rightarrow> Inr (if save_record then ds @ [record] else ds))))"

text \<open>The loop \<open>for record in records\<close> of one page.\<close>

fun records_loop :: "Scraper \<Rightarrow> xml list \<Rightarrow> dict list \<Rightarrow> pyexc + dict list" where
  "records_loop s [] ds = Inr ds"
| "records_loop s (record # rest) ds =
     (case xml_find record (OAI @ ''metadata'') of
        None \<Rightarrow> Inl AttributeError
      | Some md \<Rightarrow>
          (case Record_init (xml_find md (ARXIV @ ''arXiv'')) of
             Inl e \<Rightarrow> Inl e
           | Inr r \<Rightarrow>
               (case append_record s ds (Record_output r) of
                  Inl e \<Rightarrow> Inl e
                | Inr ds' \<Rightarrow> records_loop s rest ds')))"

subsection \<open>The fetch loop of \<open>scrape\<close>\<close>

text \<open>\<open>int(x)\<close> on a string: surrounding whitespace, one optional sign, then decimal digits
  in which single underscores may separate digits. Anything else raises \<open>ValueError\<close>,
  here \<open>None\<close>. The whitespace that \<open>int\<close> skips is narrower than that of \<open>str.strip\<close>: the
  code points 28 to 31 are not skipped. A string with more digits than
  \<open>sys.get_int_max_str_digits()\<close>, 4300 unless the interpreter is configured otherwise, raises
  \<open>ValueError\<close> too.\<close>

definition int_isspace :: "char \<Rightarrow> bool" where
  "int_isspace c =
     (let n = (of_char c :: nat) in (9 \<le> n \<and> n \<le> 13) \<or> n = 32 \<or> n = 133 \<or> n = 160)"

definition int_strip :: "string \<Rightarrow> string" where
  "int_strip s = rev (dropWhile int_isspace (rev (dropWhile int_isspace s)))"

definition int_max_str_digits :: nat where
  "int_max_str_digits = 4300"

definition is_digit :: "char \<Rightarrow> bool" where
  "is_digit c = (48 \<le> (of_char c :: nat) \<and> (of_char c :: nat) \<le> 57)"

definition digit_value :: "char \<Rightarrow> nat" where
  "digit_value c = (of_char c :: nat) - 48"

fun int_digits :: "string \<Rightarrow> nat \<Rightarrow> nat option" where
  "int_digits [] acc = Some acc"
| "int_digits [c] acc = (if is_digit c then Some (10 * acc + digit_value c) else None)"
| "int_digits (c # d # cs) acc =
     (if is_digit c then int_digits (d # cs) (10 * acc + digit_value c)
      else if c = CHR ''_'' \<and> is_digit d then int_digits cs (10 * acc + digit_value d)
      else None)"

definition int_unsigned :: "string \<Rightarrow> nat option" where
  "int_unsigned s =
     (case s of
        [] \<Rightarrow> None
      | c # cs \<Rightarrow>
          if int_max_str_digits < length (filter is_digit s) then None
          else if is_digit c then int_digits cs (digit_value c)
          else None)"

definition int_of_str :: "string \<Rightarrow> int option" where
  "int_of_str s =
     (case int_strip s of
        [] \<Rightarrow> None
      | c # cs \<Rightarrow>
          if c = CHR ''-'' then map_option (\<lambda>n. - int n) (int_unsigned cs)
          else if c = CHR ''+'' then map_option int (int_unsigned cs)
          else map_option int (int_unsigned (c # cs)))"

text \<open>What \<open>urlopen\<close>, \<open>response.read\<close> and \<open>ET.fromstring\<close> give for one request: an
  \<open>HTTPError\<close> with its status code and its \<open>retry-after\<close> header (\<open>None\<close> when the header
  is absent), another exception of \<open>urlopen\<close>, a body that does not parse, or the root
  element of the parsed body.\<close>

datatype response =
    HTTPError int "string option"
  | URLError
  | ParseError
  | Page xml

text \<open>What the process does that is visible outside: requests, sleeps and printed
  lines (each print with the values it formats).\<close>

datatype event =
    PrintFetching int
  | Urlopen string
  | PrintRetry int
  | Sleep int
  | PrintCompleted real
  | PrintTotal nat

text \<open>What \<open>scrape\<close> returns: the list \<open>ds\<close>, or the integer of \<open>return 1\<close>.\<close>

datatype retval = Records "dict list" | Sentinel int

text \<open>The local variables of \<open>scrape\<close>. \<open>time.time()\<close> is a sequence of readings
  \<open>clock 0, clock 1, ...\<close> (exact numbers, rounding is not modelled); \<open>v_reads\<close> counts
  the readings taken so far.\<close>

record vars =
  v_t0 :: real
  v_tx :: real
  v_elapsed :: real
  v_url :: string
  v_ds :: "dict list"
  v_k :: int
  v_reads :: nat

text \<open>How one pass through the body of \<open>while True\<close> ends.\<close>

datatype ctl = Continue vars | Return retval | Raise pyexc

text \<open>The code after the loop (lines 176 to 179), reached by \<open>break\<close>.\<close>

definition after_loop :: "(nat \<Rightarrow> real) \<Rightarrow> vars \<Rightarrow> event list \<times> ctl" where
  "after_loop clock v =
     (let t1 = clock (v_reads v)
      in ([PrintCompleted (t1 - v_t0 v), PrintTotal (length (v_ds v))], Return (Records (v_ds v))))"

text \<open>\<open>time.sleep(secs)\<close> raises \<open>ValueError\<close> on a negative argument.\<close>

definition sleep :: "int \<Rightarrow> event list \<times> pyexc option" where
  "sleep secs = (if secs < 0 then ([], Some ValueError) else ([Sleep secs], None))"

text \<open>The \<open>except HTTPError\<close> handler (lines 134 to 140). The variable \<open>to\<close> is never read,
  but \<open>int\<close> is applied to the header, or to the default 30 when there is none.\<close>

definition on_http_error :: "Scraper \<Rightarrow> vars \<Rightarrow> int \<Rightarrow> string option \<Rightarrow> event list \<times> ctl" where
  "on_http_error s v code hdr =
     (if code = 503 then
        (case (case hdr of None \<Rightarrow> Some 30 | Some h \<Rightarrow> int_of_str h) of
           None \<Rightarrow> ([], Raise ValueError)
         | Some to \<Rightarrow>
             (case sleep (s_t s) of
                (ev, Some e) \<Rightarrow> (PrintRetry (s_t s) # ev, Raise e)
              | (ev, None) \<Rightarrow> (PrintRetry (s_t s) # ev, Continue v)))
      else ([], Raise (HTTPError_exc code)))"

text \<open>Lines 160 to 174, after the records of the page are handled: the resumption token
  and the time budget. \<open>tree\<close> is the variable \<open>root\<close> of the source.\<close>

definition next_page :: "Scraper \<Rightarrow> (nat \<Rightarrow> real) \<Rightarrow> xml \<Rightarrow> vars \<Rightarrow> event list \<times> ctl" where
  "next_page s clock tree v =
     (case xml_find tree (OAI @ ''ListRecords'') of
        None \<Rightarrow> ([], Return (Sentinel 1))
      | Some lr \<Rightarrow>
          (case xml_find lr (OAI @ ''resumptionToken'') of
             None \<Rightarrow> after_loop clock v
           | Some token \<Rightarrow>
               (case xml_text token of
                  None \<Rightarrow> after_loop clock v
                | Some txt \<Rightarrow>
                    (let v1 = v\<lparr> v_url := BASE @ ''resumptionToken='' @ txt \<rparr>;
                         ty = clock (v_reads v1);
                         v2 = v1\<lparr> v_elapsed := v_elapsed v1 + (ty - v_tx v1),
                                 v_reads := v_reads v1 + 1 \<rparr>
                     in if real_of_int (s_timeout s) \<le> v_elapsed v2 then after_loop clock v2
                        else ([], Continue (v2\<lparr> v_tx := clock (v_reads v2),
                                               v_reads := v_reads v2 + 1 \<rparr>))))))"

text \<open>One pass through the body of \<open>while True\<close>, given what the request of this pass
  gives.\<close>

definition iteration :: "Scraper \<Rightarrow> (nat \<Rightarrow> real) \<Rightarrow> response \<Rightarrow> vars \<Rightarrow> event list \<times> ctl" where
  "iteration s clock resp v =
     (let ev0 = [PrintFetching (1000 * v_k v), Urlopen (v_url v)]
      in case resp of
           HTTPError code hdr \<Rightarrow>
             (case on_http_error s v code hdr of (ev, c) \<Rightarrow> (ev0 @ ev, c))
         | URLError \<Rightarrow> (ev0, Raise URLError_exc)
         | ParseError \<Rightarrow> (ev0, Raise ParseError_exc)
         | Page tree \<Rightarrow>
             (let v1 = v\<lparr> v_k := v_k v + 1 \<rparr>
              in case records_loop s (xml_findall tree (OAI @ ''ListRecords'') (OAI @ ''record''))
                        (v_ds v1) of
                   Inl e \<Rightarrow> (ev0, Raise e)
                 | Inr ds' \<Rightarrow>
                     (case next_page s clock tree (v1\<lparr> v_ds := ds' \<rparr>) of
                        (ev, c) \<Rightarrow> (ev0 @ ev, c))))"

text \<open>The loop, run against the responses of the server in the order they arrive. The
  loop may run for ever (a server that always answers 503, or always sends a token), so the
  result is \<open>None\<close> when the responses end before the loop does.\<close>

fun while_loop ::
  "Scraper \<Rightarrow> (nat \<Rightarrow> real) \<Rightarrow> response list \<Rightarrow> vars \<Rightarrow> event list \<times> (pyexc + retval) option" where
  "while_loop s clock [] v = ([], None)"
| "while_loop s clock (resp # rest) v =
     (case iteration s clock resp v of
        (ev, Continue v') \<Rightarrow>
          (case while_loop s clock rest v' of (ev', out) \<Rightarrow> (ev @ ev', out))
      | (ev, Return x) \<Rightarrow> (ev, Some (Inr x))
      | (ev, Raise e) \<Rightarrow> (ev, Some (Inl e)))"

text \<open>\<open>Scraper.scrape\<close>: lines 123 to 128 set the variables, \<open>t0\<close> and \<open>tx\<close> are the first
  two readings of the clock.\<close>

definition initial_vars :: "Scraper \<Rightarrow> (nat \<Rightarrow> real) \<Rightarrow> vars" where
  "initial_vars s clock =
     \<lparr> v_t0 = clock 0, v_tx = clock 1, v_elapsed = 0, v_url = s_url s, v_ds = [], v_k = 1,
       v_reads = 2 \<rparr>"

definition scrape ::
  "Scraper \<Rightarrow> (nat \<Rightarrow> real) \<Rightarrow> response list \<Rightarrow> event list \<times> (pyexc + retval) option" where
  "scrape s clock responses = while_loop s clock responses (initial_vars s clock)"

section \<open>generate\_html\<close>

text \<open>A value inside an f-string is formatted by \<open>str\<close>: a string stands for itself, a
  list is printed by \<open>repr_list\<close>, Python's \<open>repr\<close> on a list of strings, a library function
  taken as a parameter. \<open>sep.join\<close> of a string joins its characters.\<close>

definition format_value :: "(string list \<Rightarrow> string) \<Rightarrow> pyval \<Rightarrow> string" where
  "format_value repr_list v = (case v of Str x \<Rightarrow> x | StrList xs \<Rightarrow> repr_list xs)"

definition join_value :: "string \<Rightarrow> pyval \<Rightarrow> string" where
  "join_value sep v = (case v of Str x \<Rightarrow> join sep (map (\<lambda>c. [c]) x) | StrList xs \<Rightarrow> join sep xs)"

definition html_head :: "string \<Rightarrow> string" where
  \<open>html_head formatted_date =
     ''\<newline>    <div id="div_diffusion_papers_list" class="list-papers">\<newline>    <div class="date-papers">\<newline>    <h6><b>''
     @ formatted_date @ ''</b></h6>\<newline>    ''\<close>

definition html_record :: "string \<Rightarrow> string \<Rightarrow> string \<Rightarrow> string" where
  \<open>html_record url title authors =
     ''\<newline>        <p><a href='' @ [CHR 0x27] @ url @ [CHR 0x27] @ '' target='_blank'>'' @ title
     @ ''</a><br>\<newline>        '' @ authors @ ''\<newline>        </p>\<newline>        ''\<close>

text \<open>The loop \<open>for record in records\<close>; the three subscripts are evaluated from left to
  right.\<close>

fun html_loop :: "(string list \<Rightarrow> string) \<Rightarrow> dict list \<Rightarrow> string \<Rightarrow> pyexc + string" where
  "html_loop repr_list [] html_content = Inr html_content"
| "html_loop repr_list (record # rest) html_content =
     (case getitem record ''url'' of
        Inl e \<Rightarrow> Inl e
      | Inr u \<Rightarrow>
          (case getitem record ''title'' of
             Inl e \<Rightarrow> Inl e
           | Inr t \<Rightarrow>
               (case getitem record ''authors'' of
                  Inl e \<Rightarrow> Inl e
                | Inr a \<Rightarrow>
                    html_loop repr_list rest
                      (html_content @
                         html_record (format_value repr_list u) (format_value repr_list t)
                           (join_value '', '' a)))))"

text \<open>\<open>generate_html\<close>: the result is the file it writes, as the pair of its name and its
  content. \<open>strftime\<close> is \<open>strftime("%Y-%m-%d")\<close> on dates, a library function taken as a
  parameter. The closing print and a failure of the file system are left out.\<close>

definition generate_html ::
  "(string list \<Rightarrow> string) \<Rightarrow> (int \<Rightarrow> string) \<Rightarrow> int \<Rightarrow> dict list \<Rightarrow> string \<Rightarrow>
     pyexc + (string \<times> string)" where
  "generate_html repr_list strftime today records filename =
     (let today_date = today - 1;
          formatted_date = strftime today_date
      in case html_loop repr_list records (html_head formatted_date) of
           Inl e \<Rightarrow> Inl e
         | Inr html_content \<Rightarrow> Inr (filename, html_content @ ''</div></div>''))"

section \<open>Notions used to state the properties\<close>

definition normalized :: "string \<Rightarrow> bool" where
  "normalized s = (str_strip s = s \<and> str_lower s = s \<and> CHR 0x0A \<notin> set s)"

definition child_text :: "xml \<Rightarrow> string \<Rightarrow> string option" where
  "child_text e t = (case xml_find e t of None \<Rightarrow> None | Some c \<Rightarrow> xml_text c)"

text \<open>A keyword matches a field of a record dictionary: in a string value the lowercased
  keyword occurs as a substring, whatever the case of the value; in a list value the
  lowercased keyword is one of the elements.\<close>

definition field_matches :: "dict \<Rightarrow> string \<Rightarrow> string \<Rightarrow> bool" where
  "field_matches record key word =
     (case map_of record key of
        None \<Rightarrow> False
      | Some (Str v) \<Rightarrow> str_in (str_lower word) (str_lower v)
      | Some (StrList xs) \<Rightarrow> str_lower word \<in> set xs)"

text \<open>The dictionary that the loop over a page builds from one \<open>record\<close> element, for the
  elements on which the mapper does not raise.\<close>

definition dict_of :: "xml \<Rightarrow> dict" where
  "dict_of record =
     (case xml_find record (OAI @ ''metadata'') of
        None \<Rightarrow> []
      | Some md \<Rightarrow>
          (case Record_init (xml_find md (ARXIV @ ''arXiv'')) of
             Inl e \<Rightarrow> []
           | Inr r \<Rightarrow> Record_output r))"

text \<open>A scalar field is missing or empty in a fragment: there is no child of that tag, or
  the first one has no text, or a text of whitespace only.\<close>

definition missing_or_empty :: "xml \<Rightarrow> string \<Rightarrow> bool" where
  "missing_or_empty x t =
     (case child_text x (ARXIV @ t) of None \<Rightarrow> True | Some s \<Rightarrow> str_strip s = [])"

text \<open>A name component as the mapper gives it: the text in lower case and nothing else
  done to it, or the placeholder.\<close>

definition lowered_or_na :: "string option \<Rightarrow> string" where
  "lowered_or_na t = (case t of None \<Rightarrow> ''n/a'' | Some s \<Rightarrow> str_lower s)"

text \<open>The anchor that the renderer writes for a link and its visible text.\<close>

definition anchor :: "string \<Rightarrow> string \<Rightarrow> string" where
  \<open>anchor href visible =
     ''<a href='' @ [CHR 0x27] @ href @ [CHR 0x27] @ '' target='_blank'>'' @ visible @ ''</a>''\<close>

text \<open>A scalar field as the mapper gives it: the empty string when there is no text, else the
  text trimmed, then put in lower case, then with each newline replaced by a blank.\<close>

definition scalar_value :: "string option \<Rightarrow> string" where
  "scalar_value t =
     (case t of None \<Rightarrow> [] | Some s \<Rightarrow> replace_newline (str_lower (str_strip s)))"

text \<open>A value keeps the whitespace of its source: both have the same length, and at each
  position either both hold whitespace or neither does, and either both hold a newline or
  neither does.\<close>

definition keeps_whitespace :: "string \<Rightarrow> string \<Rightarrow> bool" where
  "keeps_whitespace s v =
     list_all2 (\<lambda>c d. isspace d = isspace c \<and> (d = CHR 0x0A) = (c = CHR 0x0A)) s v"

text \<open>A name component or an affiliation is its source text in lower case and nothing
  else: the placeholder stands for a text that is missing.\<close>

definition lowered_only :: "string option \<Rightarrow> string \<Rightarrow> bool" where
  "lowered_only t v =
     (case t of None \<Rightarrow> v = ''n/a'' | Some s \<Rightarrow> v = str_lower s \<and> keeps_whitespace s v)"

section \<open>Example inputs\<close>

text \<open>One author, a metadata fragment with that author, and the record the mapper makes
  of it.\<close>

definition ex_author :: xml where
  "ex_author =
     Element (ARXIV @ ''author'') None
       [Element (ARXIV @ ''keyname'') (Some ''Smith'') [],
        Element (ARXIV @ ''forenames'') (Some ''John'') []]"

definition ex_meta :: xml where
  "ex_meta =
     Element (ARXIV @ ''arXiv'') None
       [Element (ARXIV @ ''id'') (Some ''2401.00001'') [],
        Element (ARXIV @ ''title'') (Some ''A Study of X'') [],
        Element (ARXIV @ ''abstract'') (Some ''  We train\<newline>a Diffusion model. '') [],
        Element (ARXIV @ ''authors'') None [ex_author]]"

definition ex_record :: Record where
  "ex_record = projr (Record_init (Some ex_meta))"

text \<open>The day 2024-01-02 as a day number, and \<open>str\<close> on the day before it.\<close>

definition ex_today :: int where
  "ex_today = 738887"

definition ex_date_str :: "int \<Rightarrow> string" where
  "ex_date_str d = (if d = 738886 then ''2024-01-01'' else ''0001-01-01'')"

text \<open>Scrapers with default dates and several filter dictionaries.\<close>

definition ex_scraper :: "filters \<Rightarrow> Scraper" where
  "ex_scraper flt = projr (Scraper_init ex_date_str ex_today ''cs'' None None 30 300 flt)"

definition ex_filters :: filters where
  "ex_filters = [(''title'', [''Study'']), (''abstract'', [''Diffusion'', ''ControlNet''])]"

text \<open>A \<open>record\<close> element of a page that wraps the metadata fragment.\<close>

definition ex_record_xml :: xml where
  "ex_record_xml =
     Element (OAI @ ''record'') None [Element (OAI @ ''metadata'') None [ex_meta]]"

text \<open>A fragment with no id, a title of blanks only, an author without forenames and no
  affiliation anywhere.\<close>

definition ex_author_sparse :: xml where
  "ex_author_sparse =
     Element (ARXIV @ ''author'') None [Element (ARXIV @ ''keyname'') (Some ''Doe'') []]"

definition ex_meta_sparse :: xml where
  "ex_meta_sparse =
     Element (ARXIV @ ''arXiv'') None
       [Element (ARXIV @ ''title'') (Some ''   '') [],
        Element (ARXIV @ ''authors'') None [ex_author_sparse, ex_author]]"

text \<open>An author whose keyname and affiliation have a blank in front and a newline
  behind.\<close>

definition ex_author_spaced :: xml where
  "ex_author_spaced =
     Element (ARXIV @ ''author'') None
       [Element (ARXIV @ ''keyname'') (Some '' Smith\<newline>'') [],
        Element (ARXIV @ ''forenames'') (Some ''John'') [],
        Element (ARXIV @ ''affiliation'') (Some '' MIT\<newline>'') []]"

definition ex_meta_spaced :: xml where
  "ex_meta_spaced =
     Element (ARXIV @ ''arXiv'') None
       [Element (ARXIV @ ''title'') (Some ''  On Spaces\<newline>and Lines '') [],
        Element (ARXIV @ ''authors'') None [ex_author_spaced]]"

text \<open>Pages of the feed: one record and a resumption token; one record and no token; an
  error document without \<open>ListRecords\<close>.\<close>

definition ex_list_records :: xml where
  "ex_list_records =
     Element (OAI @ ''ListRecords'') None
       [ex_record_xml, Element (OAI @ ''resumptionToken'') (Some ''tok1'') []]"

definition ex_page_token :: xml where
  "ex_page_token = Element (OAI @ ''OAI-PMH'') None [ex_list_records]"

definition ex_page_last :: xml where
  "ex_page_last =
     Element (OAI @ ''OAI-PMH'') None [Element (OAI @ ''ListRecords'') None [ex_record_xml]]"

definition ex_page_error :: xml where
  "ex_page_error =
     Element (OAI @ ''OAI-PMH'') None [Element (OAI @ ''error'') (Some ''badArgument'') []]"

text \<open>A clock that advances 200 seconds between two readings.\<close>

definition ex_clock :: "nat \<Rightarrow> real" where
  "ex_clock n = 200 * real n"

text \<open>The variables of the loop after a first page with a token, for the scraper without
  filters and the clock above.\<close>

definition ex_vars_second :: vars where
  "ex_vars_second =
     \<lparr> v_t0 = 0, v_tx = 600, v_elapsed = 200, v_url = BASE @ ''resumptionToken=tok1'',
       v_ds = [Record_output ex_record], v_k = 2, v_reads = 4 \<rparr>"

section \<open>Auxiliary lemmas\<close>

subsection \<open>Strings\<close>

lemma lower_char_idem: "lower_char (lower_char c) = lower_char c"
  unfolding lower_char_def Let_def by auto

lemma isspace_lower_char: "isspace (lower_char c) = isspace c"
  unfolding lower_char_def isspace_def Let_def by auto

lemma lower_char_isspace_id: "isspace c \<Longrightarrow> lower_char c = c"
  unfolding lower_char_def isspace_def Let_def by auto

lemma lower_char_newline: "(lower_char c = CHR 0x0A) = (c = CHR 0x0A)"
proof
  assume h: "lower_char c = CHR 0x0A"
  have "isspace (lower_char c)" unfolding h by (simp add: isspace_def)
  then have "isspace c" by (simp add: isspace_lower_char)
  then have "lower_char c = c" by (rule lower_char_isspace_id)
  with h show "c = CHR 0x0A" by simp
next
  assume "c = CHR 0x0A"
  then show "lower_char c = CHR 0x0A" by (simp add: lower_char_def)
qed

lemma lower_char_space: "lower_char (CHR '' '') = CHR '' ''"
  by (simp add: lower_char_def)

lemma isspace_newline: "isspace (CHR 0x0A)"
  by (simp add: isspace_def)

lemma str_strip_ends:
  "str_strip s = [] \<or> (\<not> isspace (hd (str_strip s)) \<and> \<not> isspace (last (str_strip s)))"
proof -
  define a where "a = dropWhile isspace s"
  define b where "b = dropWhile isspace (rev a)"
  have strip: "str_strip s = rev b" by (simp add: str_strip_def a_def b_def)
  show ?thesis
  proof (cases "b = []")
    case True
    then show ?thesis by (simp add: strip)
  next
    case False
    have hb: "\<not> isspace (hd b)"
      unfolding b_def using False [unfolded b_def] by (rule hd_dropWhile)
    have a_ne: "a \<noteq> []" using False by (auto simp: b_def)
    have ha: "\<not> isspace (hd a)"
      unfolding a_def using a_ne [unfolded a_def] by (rule hd_dropWhile)
    have "rev a = takeWhile isspace (rev a) @ b" by (simp add: b_def)
    then have "rev (rev a) = rev (takeWhile isspace (rev a) @ b)" by (rule arg_cong)
    then have "a = rev b @ rev (takeWhile isspace (rev a))" by (simp only: rev_rev_ident rev_append)
    then have "hd a = hd (rev b @ rev (takeWhile isspace (rev a)))" by (rule arg_cong)
    with False have "hd a = hd (rev b)" by (simp add: hd_append)
    with ha have "\<not> isspace (hd (rev b))" by simp
    moreover from hb False have "\<not> isspace (last (rev b))" by (simp add: last_rev)
    ultimately show ?thesis by (simp add: strip)
  qed
qed

lemma str_strip_id:
  assumes "s = [] \<or> (\<not> isspace (hd s) \<and> \<not> isspace (last s))"
  shows "str_strip s = s"
proof (cases "s = []")
  case True
  then show ?thesis by (simp add: str_strip_def)
next
  case False
  with assms have h: "\<not> isspace (hd s)" and l: "\<not> isspace (last s)" by auto
  from False h have 1: "dropWhile isspace s = s" by (cases s) auto
  from False l have 2: "dropWhile isspace (rev s) = rev s" by (cases "rev s") (auto simp: hd_rev)
  show ?thesis by (simp add: str_strip_def 1 2)
qed

lemma normalized_get_text_value: "normalized (replace_newline (str_lower (str_strip s)))"
proof -
  let ?t = "str_strip s"
  let ?r = "replace_newline (str_lower ?t)"
  have nl: "CHR 0x0A \<notin> set ?r" by (auto simp: replace_newline_def)
  have low: "str_lower ?r = ?r"
    by (simp add: str_lower_def replace_newline_def lower_char_idem lower_char_space)
  have ends: "?r = [] \<or> (\<not> isspace (hd ?r) \<and> \<not> isspace (last ?r))"
  proof (cases "?t = []")
    case True
    then show ?thesis by (simp add: replace_newline_def str_lower_def)
  next
    case False
    with str_strip_ends [of s] have h: "\<not> isspace (hd ?t)" and l: "\<not> isspace (last ?t)" by auto
    have f: "\<And>c. \<not> isspace c \<Longrightarrow> \<not> isspace (if lower_char c = CHR 0x0A then CHR '' '' else lower_char c)"
      using isspace_newline by (auto simp: isspace_lower_char lower_char_newline)
    from False have "hd ?r = (if lower_char (hd ?t) = CHR 0x0A then CHR '' '' else lower_char (hd ?t))"
      by (simp add: replace_newline_def str_lower_def hd_map)
    moreover from False have "last ?r = (if lower_char (last ?t) = CHR 0x0A then CHR '' '' else lower_char (last ?t))"
      by (simp add: replace_newline_def str_lower_def last_map)
    ultimately show ?thesis using f [OF h] f [OF l] by simp
  qed
  have "str_strip ?r = ?r" by (rule str_strip_id [OF ends])
  with low nl show ?thesis by (simp add: normalized_def)
qed

lemma get_text_child:
  "get_text (Some x) ns t =
     (case child_text x (ns @ t) of None \<Rightarrow> [] | Some s \<Rightarrow> replace_newline (str_lower (str_strip s)))"
  by (simp add: get_text_def child_text_def split: option.splits)

lemma normalized_Nil: "normalized []"
  by (simp add: normalized_def str_strip_def str_lower_def)

lemma normalized_get_text: "normalized (get_text x ns t)"
  by (cases x) (auto simp: get_text_def normalized_Nil normalized_get_text_value split: option.splits)

lemma normalized_url: 
  assumes "normalized i" shows "normalized (''https://arxiv.org/abs/'' @ i)"
proof -
  let ?p = "''https://arxiv.org/abs/''"
  from assms have s: "str_strip i = i" and l: "str_lower i = i" and n: "CHR 0x0A \<notin> set i"
    by (simp_all add: normalized_def)
  have l': "str_lower (?p @ i) = ?p @ i" using l by (simp add: str_lower_def lower_char_def)
  have n': "CHR 0x0A \<notin> set (?p @ i)" using n by simp
  have hdp: "\<not> isspace (hd (?p @ i))" by (simp add: isspace_def)
  have lastp: "\<not> isspace (last (?p @ i))"
  proof (cases "i = []")
    case True then show ?thesis by (simp add: isspace_def)
  next
    case False
    with str_strip_ends [of i] s have "\<not> isspace (last i)" by simp
    with False show ?thesis by simp
  qed
  have "str_strip (?p @ i) = ?p @ i" by (rule str_strip_id) (use hdp lastp in blast)
  with l' n' show ?thesis by (simp add: normalized_def)
qed

lemma Record_init_Some:
  "Record_init (Some x) =
     Inr \<lparr> r_xml = Some x,
           r_id = get_text (Some x) ARXIV ''id'',
           r_url = ''https://arxiv.org/abs/'' @ get_text (Some x) ARXIV ''id'',
           r_title = get_text (Some x) ARXIV ''title'',
           r_abstract = get_text (Some x) ARXIV ''abstract'',
           r_cats = get_text (Some x) ARXIV ''categories'',
           r_created = get_text (Some x) ARXIV ''created'',
           r_updated = get_text (Some x) ARXIV ''updated'',
           r_doi = get_text (Some x) ARXIV ''doi'',
           r_authors = map (\<lambda>a. get_name a ''forenames'' @ '' '' @ get_name a ''keyname'')
                         (xml_findall x (ARXIV @ ''authors'') (ARXIV @ ''author'')),
           r_affiliation = (case affiliation_texts (xml_findall x (ARXIV @ ''authors'') (ARXIV @ ''author'')) of
                              None \<Rightarrow> [] | Some xs \<Rightarrow> xs) \<rparr>"
  by (simp add: Record_init_def get_authors_def get_affiliation_def Let_def zip_map1 zip_map2 zip_same_conv_map
           split: option.splits)
subsection \<open>The filter\<close>

lemma words_loop_eq:
  "words_loop record key ws b =
     (if ws = [] then Inr b
      else case getitem record key of
             Inl e \<Rightarrow> Inl e
           | Inr v \<Rightarrow> Inr (b \<or> (\<exists>w \<in> set ws. py_in (str_lower w) v)))"
proof (induction ws arbitrary: b)
  case Nil
  show ?case by simp
next
  case (Cons w ws)
  show ?case
    by (cases "getitem record key") (auto simp: Cons.IH)
qed

lemma keys_loop_eq:
  "keys_loop flt record ks b =
     (case List.find (\<lambda>k. case map_of flt k of
                              None \<Rightarrow> True
                            | Some ws \<Rightarrow> ws \<noteq> [] \<and> map_of record k = None) ks of
        Some k \<Rightarrow> Inl (KeyError k)
      | None \<Rightarrow>
          Inr (b \<or> (\<exists>k \<in> set ks. \<exists>ws v. map_of flt k = Some ws \<and> map_of record k = Some v
                       \<and> (\<exists>w \<in> set ws. py_in (str_lower w) v))))"
proof (induction ks arbitrary: b)
  case Nil
  show ?case by simp
next
  case (Cons k ks)
  show ?case
  proof (cases "map_of flt k")
    case None
    then show ?thesis by simp
  next
    case (Some ws)
    show ?thesis
    proof (cases "ws = []")
      case True
      with Some show ?thesis by (simp add: Cons.IH split: option.splits)
    next
      case False
      show ?thesis
      proof (cases "map_of record k")
        case None
        with Some False show ?thesis by (simp add: words_loop_eq getitem_def)
      next
        case (Some v)
        with \<open>map_of flt k = Some ws\<close> False show ?thesis
          by (auto simp: words_loop_eq getitem_def Cons.IH split: option.splits)
      qed
    qed
  qed
qed
lemma Scraper_init_fields:
  assumes "Scraper_init date_str today category date_from date_until t timeout flt = Inr s"
  shows "s_filters s = flt" and "s_append_all s = (flt = [])"
    and "s_keys s = (if flt = [] then None else Some (map fst flt))"
    and "s_t s = t" and "s_timeout s = timeout" and "s_cat s = category"
  using assms by (auto simp: Scraper_init_def Let_def split: option.splits sum.splits)

lemma find_map_of_fst:
  "List.find (\<lambda>k. case map_of flt k of None \<Rightarrow> True | Some ws \<Rightarrow> P k ws) (map fst flt) = None
     \<longleftrightarrow> (\<forall>k ws. map_of flt k = Some ws \<longrightarrow> \<not> P k ws)"
proof -
  have "\<And>k ws. map_of flt k = Some ws \<Longrightarrow> k \<in> fst ` set flt"
    by (metis domI dom_map_of_conv_image_fst)
  moreover have "\<And>k. k \<in> fst ` set flt \<Longrightarrow> \<exists>ws. map_of flt k = Some ws"
    by (metis domD dom_map_of_conv_image_fst)
  ultimately show ?thesis
    by (fastforce simp: find_None_iff split: option.splits)
qed

lemma append_record_init:
  assumes "Scraper_init date_str today category date_from date_until t timeout flt = Inr s"
  shows "append_record s ds record =
     (if flt = [] then Inr (ds @ [record])
      else case List.find (\<lambda>k. case map_of flt k of
                                   None \<Rightarrow> True
                                 | Some ws \<Rightarrow> ws \<noteq> [] \<and> map_of record k = None) (map fst flt) of
             Some k \<Rightarrow> Inl (KeyError k)
           | None \<Rightarrow>
               Inr (if \<exists>k \<in> set (map fst flt). \<exists>ws v. map_of flt k = Some ws
                          \<and> map_of record k = Some v \<and> (\<exists>w \<in> set ws. py_in (str_lower w) v)
                    then ds @ [record] else ds))"
proof (cases "flt = []")
  case True
  then show ?thesis by (simp add: append_record_def Scraper_init_fields [OF assms])
next
  case False
  have "append_record s ds record =
      (case keys_loop flt record (map fst flt) False of
         Inl e \<Rightarrow> Inl e
       | Inr save_record \<Rightarrow> Inr (if save_record then ds @ [record] else ds))"
    using False by (simp add: append_record_def Scraper_init_fields [OF assms])
  also have "\<dots> = (case List.find (\<lambda>k. case map_of flt k of
                                   None \<Rightarrow> True
                                 | Some ws \<Rightarrow> ws \<noteq> [] \<and> map_of record k = None) (map fst flt) of
             Some k \<Rightarrow> Inl (KeyError k)
           | None \<Rightarrow>
               Inr (if \<exists>k \<in> set (map fst flt). \<exists>ws v. map_of flt k = Some ws
                          \<and> map_of record k = Some v \<and> (\<exists>w \<in> set ws. py_in (str_lower w) v)
                    then ds @ [record] else ds))"
    unfolding keys_loop_eq by (simp only: simp_thms split: option.split) simp
  finally show ?thesis using False by simp
qed

lemma append_record_cases:
  "append_record s ds record = Inr ds' \<Longrightarrow> ds' = ds \<or> ds' = ds @ [record]"
  by (auto simp: append_record_def split: if_splits option.splits sum.splits)

lemma records_loop_subseq:
  "records_loop s recs ds = Inr ds' \<Longrightarrow> \<exists>new. ds' = ds @ new \<and> subseq new (map dict_of recs)"
proof (induction recs arbitrary: ds)
  case Nil
  then show ?case by simp
next
  case (Cons rcd rest)
  from Cons.prems obtain md r ds1 where
    md: "xml_find rcd (OAI @ ''metadata'') = Some md" and
    r: "Record_init (xml_find md (ARXIV @ ''arXiv'')) = Inr r" and
    a: "append_record s ds (Record_output r) = Inr ds1" and
    rest: "records_loop s rest ds1 = Inr ds'"
    by (auto split: option.splits sum.splits)
  have d: "dict_of rcd = Record_output r" by (simp add: dict_of_def md r)
  from Cons.IH [OF rest] obtain new where new: "ds' = ds1 @ new" "subseq new (map dict_of rest)"
    by blast
  from append_record_cases [OF a] show ?case
  proof
    assume "ds1 = ds"
    with new have "ds' = ds @ new" "subseq new (map dict_of (rcd # rest))" by auto
    then show ?thesis by blast
  next
    assume "ds1 = ds @ [Record_output r]"
    with new d have "ds' = ds @ (dict_of rcd # new)"
      "subseq (dict_of rcd # new) (map dict_of (rcd # rest))" by auto
    then show ?thesis by blast
  qed
qed

lemma Scraper_init_other_dates:
  "\<exists>s. Scraper_init date_str today category None date_until t timeout flt = Inr s
        \<and> s_f s = date_str (today - 1)
        \<and> s_u s = (case date_until of None \<Rightarrow> date_str (today - 1) | Some d \<Rightarrow> d)"
  "\<exists>s. Scraper_init date_str today category (Some d1) (Some d2) t timeout flt = Inr s
        \<and> s_f s = d1 \<and> s_u s = d2"
  by (simp_all add: Scraper_init_def Let_def split: option.splits)

subsection \<open>The examples\<close>

lemma ex_record_init: "Record_init (Some ex_meta) = Inr ex_record"
  by (simp add: ex_record_def Record_init_Some)

lemma ex_scraper_init:
  "Scraper_init ex_date_str ex_today ''cs'' None None 30 300 flt = Inr (ex_scraper flt)"
  by (simp add: ex_scraper_def Scraper_init_def Let_def)

lemma ex_record_output:
  "Record_output ex_record =
     [(''title'', Str ''a study of x''),
      (''id'', Str ''2401.00001''),
      (''abstract'', Str ''we train a diffusion model.''),
      (''categories'', Str []),
      (''doi'', Str []),
      (''created'', Str []),
      (''updated'', Str []),
      (''authors'', StrList [''john smith'']),
      (''affiliation'', StrList []),
      (''url'', Str ''https://arxiv.org/abs/2401.00001'')]"
  by code_simp


lemma normalized_lower: "normalized v \<Longrightarrow> str_lower v = v"
  by (simp add: normalized_def)

lemma Record_scalars_normalized:
  assumes "Record_init (Some x) = Inr r"
  shows "normalized (r_title r) \<and> normalized (r_id r) \<and> normalized (r_abstract r)
    \<and> normalized (r_cats r) \<and> normalized (r_doi r) \<and> normalized (r_created r)
    \<and> normalized (r_updated r) \<and> normalized (r_url r)"
proof -
  from assms(1) have r: "r = projr (Record_init (Some x))" by simp
  have n: "normalized (r_title r)" "normalized (r_id r)" "normalized (r_abstract r)"
    "normalized (r_cats r)" "normalized (r_doi r)" "normalized (r_created r)"
    "normalized (r_updated r)"
    unfolding r Record_init_Some by (simp_all add: normalized_get_text)
  have u: "r_url r = ''https://arxiv.org/abs/'' @ get_text (Some x) ARXIV ''id''"
    unfolding r Record_init_Some by simp
  have nu: "normalized (r_url r)"
    unfolding u by (rule normalized_url [OF normalized_get_text])
  from n nu show ?thesis by simp
qed

lemma Record_output_Str_lower:
  assumes "Record_init (Some x) = Inr r" and "map_of (Record_output r) k = Some (Str v)"
  shows "str_lower v = v"
proof -
  from assms(2) have "normalized v"
    using Record_scalars_normalized [OF assms(1)]
    by (auto simp: Record_output_def split: if_splits)
  then show ?thesis by (rule normalized_lower)
qed


subsection \<open>The mapper\<close>

lemma get_name_child: "get_name a c = lowered_or_na (child_text a (ARXIV @ c))"
  by (simp add: get_name_def lowered_or_na_def child_text_def split: option.splits)

lemma get_text_missing_or_empty:
  "missing_or_empty x t \<Longrightarrow> get_text (Some x) ARXIV t = []"
  by (auto simp: missing_or_empty_def get_text_child replace_newline_def str_lower_def
           split: option.splits)

lemma affiliation_texts_None:
  "\<exists>a \<in> set as. child_text a (ARXIV @ ''affiliation'') = None \<Longrightarrow> affiliation_texts as = None"
  by (induction as) (auto simp: child_text_def split: option.splits)

lemma affiliation_texts_lower:
  "affiliation_texts as = Some xs \<Longrightarrow> list_all (\<lambda>a. str_lower a = a) xs"
  by (induction as arbitrary: xs)
     (auto simp: str_lower_def lower_char_idem split: option.splits)

lemma str_lower_lowered_or_na: "str_lower (lowered_or_na t) = lowered_or_na t"
proof (cases t)
  case None
  then show ?thesis by (simp add: lowered_or_na_def str_lower_def lower_char_def)
next
  case (Some s)
  then show ?thesis by (simp add: lowered_or_na_def str_lower_def lower_char_idem)
qed

subsection \<open>The fetch loop\<close>

lemma xml_findall_no_parent:
  "xml_find e a = None \<Longrightarrow> xml_findall e a b = []"
  by (simp add: xml_find_def xml_findall_def find_None_iff filter_empty_conv)

lemma iteration_no_ListRecords:
  assumes "xml_find tree (OAI @ ''ListRecords'') = None"
  shows "iteration s clock (Page tree) v =
           ([PrintFetching (1000 * v_k v), Urlopen (v_url v)], Return (Sentinel 1))"
  by (simp add: iteration_def next_page_def xml_findall_no_parent [OF assms] assms)

lemma iteration_503_retry:
  assumes "hdr = None \<or> (\<exists>h n. hdr = Some h \<and> int_of_str h = Some n)" and "0 \<le> s_t s"
  shows "iteration s clock (HTTPError 503 hdr) v =
           ([PrintFetching (1000 * v_k v), Urlopen (v_url v), PrintRetry (s_t s), Sleep (s_t s)],
            Continue v)"
  using assms by (auto simp: iteration_def on_http_error_def sleep_def)

lemma iteration_503_bad_header:
  assumes "int_of_str h = None"
  shows "iteration s clock (HTTPError 503 (Some h)) v =
           ([PrintFetching (1000 * v_k v), Urlopen (v_url v)], Raise ValueError)"
  using assms by (simp add: iteration_def on_http_error_def)

lemma iteration_http_other:
  assumes "code \<noteq> 503"
  shows "iteration s clock (HTTPError code hdr) v =
           ([PrintFetching (1000 * v_k v), Urlopen (v_url v)], Raise (HTTPError_exc code))"
  using assms by (simp add: iteration_def on_http_error_def)

lemma iteration_http_continue:
  assumes "iteration s clock (HTTPError code hdr) v = (ev, Continue v')"
  shows "v' = v \<and> code = 503"
  using assms
  by (auto simp: iteration_def on_http_error_def sleep_def split: if_splits option.splits)

lemma iteration_page_continue:
  assumes "iteration s clock (Page tree) v = (ev, Continue v')"
  shows "v_elapsed v' = v_elapsed v + (clock (v_reads v) - v_tx v)
         \<and> v_elapsed v' < real_of_int (s_timeout s)"
  using assms
  by (auto simp: iteration_def next_page_def after_loop_def Let_def
           split: if_splits option.splits sum.splits prod.splits)

lemma iteration_page_timeout:
  assumes "records_loop s (xml_findall tree (OAI @ ''ListRecords'') (OAI @ ''record'')) (v_ds v)
             = Inr ds'"
    and "xml_find tree (OAI @ ''ListRecords'') = Some lr"
    and "child_text lr (OAI @ ''resumptionToken'') = Some txt"
    and "real_of_int (s_timeout s) \<le> v_elapsed v + (clock (v_reads v) - v_tx v)"
  shows "iteration s clock (Page tree) v =
           ([PrintFetching (1000 * v_k v), Urlopen (v_url v),
             PrintCompleted (clock (v_reads v + 1) - v_t0 v), PrintTotal (length ds')],
            Return (Records ds'))"
  using assms
  by (auto simp: iteration_def next_page_def after_loop_def Let_def child_text_def
           split: option.splits)

subsection \<open>The renderer\<close>

lemma starts_with_append: "starts_with w (w @ q)"
  by (induction w) auto

lemma str_in_prefix: "str_in w (w @ q)"
  by (cases "w @ q") (auto simp: starts_with_append dest: sym)

lemma str_in_append: "str_in w (p @ w @ q)"
  by (induction p) (auto simp: str_in_prefix)

lemma html_record_anchor:
  \<open>html_record url title authors =
     ''\<newline>        <p>'' @ anchor url title @ ''<br>\<newline>        '' @ authors
       @ ''\<newline>        </p>\<newline>        ''\<close>
  by (simp add: html_record_def anchor_def)

lemma getitem_Record_output:
  "getitem (Record_output r) ''url'' = Inr (Str (r_url r))"
  "getitem (Record_output r) ''title'' = Inr (Str (r_title r))"
  "getitem (Record_output r) ''authors'' = Inr (StrList (r_authors r))"
  by (simp_all add: getitem_def Record_output_def)

lemma generate_html_single:
  "generate_html repr_list strftime today [Record_output r] filename =
     Inr (filename,
          html_head (strftime (today - 1))
            @ html_record (r_url r) (r_title r) (join '', '' (r_authors r))
            @ ''</div></div>'')"
  by (simp add: generate_html_def getitem_Record_output format_value_def join_value_def)

lemma generate_html_single_anchor:
  "\<exists>html. generate_html repr_list strftime today [Record_output r] filename = Inr (filename, html)
       \<and> str_in (anchor (r_url r) (r_title r)) html"
proof -
  let ?a = "anchor (r_url r) (r_title r)"
  let ?p = "html_head (strftime (today - 1)) @ ''\<newline>        <p>''"
  let ?q = "''<br>\<newline>        '' @ join '', '' (r_authors r)
       @ ''\<newline>        </p>\<newline>        '' @ ''</div></div>''"
  have "html_head (strftime (today - 1))
            @ html_record (r_url r) (r_title r) (join '', '' (r_authors r))
            @ ''</div></div>'' = ?p @ ?a @ ?q"
    unfolding html_record_anchor by (simp only: append_assoc)
  moreover have "str_in ?a (?p @ ?a @ ?q)" by (rule str_in_append)
  ultimately show ?thesis unfolding generate_html_single by simp
qed

subsection \<open>Values that are put in lower case only\<close>

lemma keeps_whitespace_str_lower: "keeps_whitespace s (str_lower s)"
  by (simp add: keeps_whitespace_def str_lower_def list_all2_map2 list_all2_same
        isspace_lower_char lower_char_newline)

lemma lowered_only_lowered_or_na: "lowered_only t (lowered_or_na t)"
  by (cases t) (simp_all add: lowered_only_def lowered_or_na_def keeps_whitespace_str_lower)

lemma affiliation_texts_those:
  "affiliation_texts as =
     map_option (map str_lower) (those (map (\<lambda>a. child_text a (ARXIV @ ''affiliation'')) as))"
  by (induction as) (auto simp: child_text_def split: option.splits)

lemma get_text_scalar_value:
  "get_text (Some x) ARXIV t = scalar_value (child_text x (ARXIV @ t))"
  by (simp add: get_text_child scalar_value_def)

section \<open>The fetch loop\<close>

text \<open>
  Claim C1. When the parsed page has no \<open>ListRecords\<close> child, whatever the variables of the
  loop are at that point, the loop makes no further request and \<open>scrape\<close> returns the
  integer 1: it does not raise, and the value is neither a list of records (empty or not)
  nor the outcome of a normal end of the pages, which is a list.
\<close>

theorem missing_ListRecords_returns_sentinel:
  assumes "xml_find tree (OAI @ ''ListRecords'') = None"
  shows "while_loop s clock (Page tree # rest) v =
           ([PrintFetching (1000 * v_k v), Urlopen (v_url v)], Some (Inr (Sentinel 1)))
         \<and> Sentinel 1 \<noteq> Records ds"
  by (simp add: iteration_no_ListRecords [OF assms])

theorem missing_ListRecords_returns_sentinel_witness:
  "xml_find ex_page_error (OAI @ ''ListRecords'') = None
   \<and> scrape (ex_scraper []) ex_clock [Page ex_page_error, Page ex_page_last] =
       ([PrintFetching 1000, Urlopen (s_url (ex_scraper []))], Some (Inr (Sentinel 1)))
   \<and> snd (scrape (ex_scraper []) ex_clock [Page ex_page_token, Page ex_page_error, Page ex_page_last])
       = Some (Inr (Sentinel 1))
   \<and> snd (scrape (ex_scraper []) ex_clock [Page ex_page_token, Page ex_page_last])
       = Some (Inr (Records [Record_output ex_record, Record_output ex_record]))"
proof -
  have h: "xml_find ex_page_error (OAI @ ''ListRecords'') = None" by code_simp
  have 1: "scrape (ex_scraper []) ex_clock [Page ex_page_error, Page ex_page_last] =
       ([PrintFetching 1000, Urlopen (s_url (ex_scraper []))], Some (Inr (Sentinel 1)))"
    using missing_ListRecords_returns_sentinel [OF h, of "ex_scraper []" ex_clock
        "[Page ex_page_last]" "initial_vars (ex_scraper []) ex_clock"]
    by (simp add: scrape_def initial_vars_def)
  have 2: "snd (scrape (ex_scraper []) ex_clock
              [Page ex_page_token, Page ex_page_error, Page ex_page_last])
       = Some (Inr (Sentinel 1))"
    by code_simp
  have 3: "snd (scrape (ex_scraper []) ex_clock [Page ex_page_token, Page ex_page_last])
       = Some (Inr (Records [Record_output ex_record, Record_output ex_record]))"
    by code_simp
  from h 1 2 3 show ?thesis by blast
qed

text \<open>
  Claim C2 fails on the code for a 503 response whose \<open>Retry-After\<close> header is an HTTP
  date: the handler applies \<open>int\<close> to the header before it sleeps, so \<open>scrape\<close> raises
  \<open>ValueError\<close> on the first such response, without sleeping and without a second request.
\<close>

theorem scrape_503_date_header_raises:
  "scrape s clock (HTTPError 503 (Some ''Wed, 21 Oct 2015 07:28:00 GMT'') # rest) =
     ([PrintFetching 1000, Urlopen (s_url s)], Some (Inl ValueError))"
proof -
  have "int_of_str ''Wed, 21 Oct 2015 07:28:00 GMT'' = None" by code_simp
  then show ?thesis
    by (simp add: scrape_def initial_vars_def iteration_503_bad_header)
qed

text \<open>
  Claim C3. A pass of the loop that ends in the 503 branch leaves the elapsed time and
  the start of the current page as they were. A pass that handles a page and goes on to the
  next one adds to the elapsed time the reading of the clock minus the start of the page,
  and goes on only when the sum is below the time budget. When the page has a resumption
  token and the sum meets or exceeds the budget, the loop ends there, whatever responses
  would follow, and \<open>scrape\<close> returns the records appended so far as a list; nothing is
  raised.
\<close>

theorem elapsed_time_accounting:
  "(iteration s clock (HTTPError code hdr) v = (ev1, Continue v1)
      \<longrightarrow> v_elapsed v1 = v_elapsed v \<and> v_tx v1 = v_tx v)
   \<and> (iteration s clock (Page tree2) v = (ev2, Continue v2)
        \<longrightarrow> v_elapsed v2 = v_elapsed v + (clock (v_reads v) - v_tx v)
            \<and> v_elapsed v2 < real_of_int (s_timeout s))
   \<and> (records_loop s (xml_findall tree (OAI @ ''ListRecords'') (OAI @ ''record'')) (v_ds v)
          = Inr ds'
        \<and> xml_find tree (OAI @ ''ListRecords'') = Some lr
        \<and> child_text lr (OAI @ ''resumptionToken'') = Some tok
        \<and> real_of_int (s_timeout s) \<le> v_elapsed v + (clock (v_reads v) - v_tx v)
        \<longrightarrow> while_loop s clock (Page tree # rest) v =
              ([PrintFetching (1000 * v_k v), Urlopen (v_url v),
                PrintCompleted (clock (v_reads v + 1) - v_t0 v), PrintTotal (length ds')],
               Some (Inr (Records ds'))))"
proof (intro conjI impI)
  assume "iteration s clock (HTTPError code hdr) v = (ev1, Continue v1)"
  then have "v1 = v" using iteration_http_continue by blast
  then show "v_elapsed v1 = v_elapsed v" and "v_tx v1 = v_tx v" by simp_all
next
  assume a: "iteration s clock (Page tree2) v = (ev2, Continue v2)"
  from iteration_page_continue [OF a]
  show "v_elapsed v2 = v_elapsed v + (clock (v_reads v) - v_tx v)"
    and "v_elapsed v2 < real_of_int (s_timeout s)" by simp_all
next
  assume "records_loop s (xml_findall tree (OAI @ ''ListRecords'') (OAI @ ''record'')) (v_ds v)
          = Inr ds'
        \<and> xml_find tree (OAI @ ''ListRecords'') = Some lr
        \<and> child_text lr (OAI @ ''resumptionToken'') = Some tok
        \<and> real_of_int (s_timeout s) \<le> v_elapsed v + (clock (v_reads v) - v_tx v)"
  then have "iteration s clock (Page tree) v =
           ([PrintFetching (1000 * v_k v), Urlopen (v_url v),
             PrintCompleted (clock (v_reads v + 1) - v_t0 v), PrintTotal (length ds')],
            Return (Records ds'))"
    using iteration_page_timeout by blast
  then show "while_loop s clock (Page tree # rest) v =
              ([PrintFetching (1000 * v_k v), Urlopen (v_url v),
                PrintCompleted (clock (v_reads v + 1) - v_t0 v), PrintTotal (length ds')],
               Some (Inr (Records ds')))"
    by simp
qed
theorem elapsed_time_accounting_witness:
  "iteration (ex_scraper []) ex_clock (HTTPError 503 None) (initial_vars (ex_scraper []) ex_clock)
     = ([PrintFetching 1000, Urlopen (s_url (ex_scraper [])), PrintRetry 30, Sleep 30],
        Continue (initial_vars (ex_scraper []) ex_clock))
   \<and> iteration (ex_scraper []) ex_clock (Page ex_page_token) (initial_vars (ex_scraper []) ex_clock)
     = ([PrintFetching 1000, Urlopen (s_url (ex_scraper []))], Continue ex_vars_second)
   \<and> v_elapsed ex_vars_second = 0 + (ex_clock 2 - 200)
   \<and> v_elapsed ex_vars_second < 300
   \<and> real_of_int (s_timeout (ex_scraper [])) \<le> v_elapsed ex_vars_second + (ex_clock 4 - 600)
   \<and> while_loop (ex_scraper []) ex_clock [Page ex_page_token, Page ex_page_last] ex_vars_second
     = ([PrintFetching 2000, Urlopen (BASE @ ''resumptionToken=tok1''),
         PrintCompleted 1000, PrintTotal 2],
        Some (Inr (Records [Record_output ex_record, Record_output ex_record])))"
proof -
  let ?s = "ex_scraper []"
  let ?v0 = "initial_vars ?s ex_clock"
  let ?d = "Record_output ex_record"
  have t: "s_t ?s = 30" "s_timeout ?s = 300"
    using Scraper_init_fields [OF ex_scraper_init [of "[]"]] by simp_all
  have v0: "v_elapsed ?v0 = 0" "v_tx ?v0 = 200" "v_reads ?v0 = 2" "v_k ?v0 = 1"
    "v_url ?v0 = s_url ?s"
    by (simp_all add: initial_vars_def ex_clock_def)
  have a: "iteration ?s ex_clock (HTTPError 503 None) ?v0
     = ([PrintFetching 1000, Urlopen (s_url ?s), PrintRetry 30, Sleep 30], Continue ?v0)"
    using iteration_503_retry [of None ?s ex_clock ?v0] by (simp add: t v0)
  have rl0: "records_loop ?s (xml_findall ex_page_token (OAI @ ''ListRecords'') (OAI @ ''record''))
              [] = Inr [?d]"
    by code_simp
  have lr: "xml_find ex_page_token (OAI @ ''ListRecords'') = Some ex_list_records"
    by code_simp
  have tok: "child_text ex_list_records (OAI @ ''resumptionToken'') = Some ''tok1''"
    by code_simp
  have tk: "xml_find ex_list_records (OAI @ ''resumptionToken'')
              = Some (Element (OAI @ ''resumptionToken'') (Some ''tok1'') [])"
    by code_simp
  have b: "iteration ?s ex_clock (Page ex_page_token) ?v0
     = ([PrintFetching 1000, Urlopen (s_url ?s)], Continue ex_vars_second)"
    by (simp add: iteration_def next_page_def initial_vars_def ex_clock_def t
          ex_vars_second_def rl0 lr tk)
  have rl: "records_loop ?s (xml_findall ex_page_token (OAI @ ''ListRecords'') (OAI @ ''record''))
              (v_ds ex_vars_second) = Inr [?d, ?d]"
    unfolding ex_vars_second_def by code_simp
  have le: "real_of_int (s_timeout ?s)
              \<le> v_elapsed ex_vars_second + (ex_clock (v_reads ex_vars_second) - v_tx ex_vars_second)"
    by (simp add: t ex_vars_second_def ex_clock_def)
  from elapsed_time_accounting [where s = ?s and clock = ex_clock and code = 503 and hdr = None
      and v = ?v0 and ?ev1.0 = "[PrintFetching 1000, Urlopen (s_url ?s), PrintRetry 30, Sleep 30]"
      and ?v1.0 = ?v0 and ?tree2.0 = ex_page_token
      and ?ev2.0 = "[PrintFetching 1000, Urlopen (s_url ?s)]" and ?v2.0 = ex_vars_second] a b
  have c0: "v_elapsed ex_vars_second = v_elapsed ?v0 + (ex_clock (v_reads ?v0) - v_tx ?v0)
            \<and> v_elapsed ex_vars_second < real_of_int (s_timeout ?s)"
    by blast
  then have c: "v_elapsed ex_vars_second = 0 + (ex_clock 2 - 200)"
    "v_elapsed ex_vars_second < 300"
    by (simp_all add: v0 t)
  from elapsed_time_accounting [where s = ?s and clock = ex_clock and v = ex_vars_second
      and tree = ex_page_token and ds' = "[?d, ?d]" and lr = ex_list_records and tok = "''tok1''"
      and rest = "[Page ex_page_last]"] rl lr tok le
  have d0: "while_loop ?s ex_clock (Page ex_page_token # [Page ex_page_last]) ex_vars_second
     = ([PrintFetching (1000 * v_k ex_vars_second), Urlopen (v_url ex_vars_second),
         PrintCompleted (ex_clock (v_reads ex_vars_second + 1) - v_t0 ex_vars_second),
         PrintTotal (length [?d, ?d])],
        Some (Inr (Records [?d, ?d])))"
    by blast
  have d: "while_loop ?s ex_clock [Page ex_page_token, Page ex_page_last] ex_vars_second
     = ([PrintFetching 2000, Urlopen (BASE @ ''resumptionToken=tok1''),
         PrintCompleted 1000, PrintTotal 2],
        Some (Inr (Records [?d, ?d])))"
    unfolding d0 by (simp add: ex_vars_second_def ex_clock_def)
  from le have e: "real_of_int (s_timeout ?s) \<le> v_elapsed ex_vars_second + (ex_clock 4 - 600)"
    by (simp add: ex_vars_second_def)
  from a b c d e show ?thesis by blast
qed

section \<open>The filter predicate\<close>

text \<open>
  Claim C4, as amended. For a scraper built by the constructor with the filter dictionary
  \<open>flt\<close> and a record dictionary built by the mapper, such that every field of \<open>flt\<close> with
  at least one keyword is a key of the record: the record is appended to \<open>ds\<close> if and only if
  \<open>flt\<close> is empty or some keyword of some field matches that field of the record. A
  string-valued field is matched when the lowercased keyword occurs in it as a substring,
  whatever the case; a list-valued field (authors, affiliation) is matched only when the
  lowercased keyword equals one whole element of the list.
\<close>

theorem filter_retains_iff_match:
  assumes "Scraper_init date_str today category date_from date_until t timeout flt = Inr s"
    and "Record_init (Some x) = Inr r"
    and "\<forall>k ws. map_of flt k = Some ws \<longrightarrow> ws = [] \<or> map_of (Record_output r) k \<noteq> None"
  shows "append_record s ds (Record_output r) =
           Inr (if flt = [] \<or> (\<exists>k ws w. map_of flt k = Some ws \<and> w \<in> set ws
                                   \<and> field_matches (Record_output r) k w)
                then ds @ [Record_output r] else ds)"
proof -
  let ?d = "Record_output r"
  have nobad: "List.find (\<lambda>k. case map_of flt k of
                                 None \<Rightarrow> True
                               | Some ws \<Rightarrow> ws \<noteq> [] \<and> map_of ?d k = None) (map fst flt) = None"
    unfolding find_map_of_fst using assms(3) by blast
  have py: "\<And>k v w. map_of ?d k = Some v \<Longrightarrow> py_in (str_lower w) v = field_matches ?d k w"
  proof -
    fix k v w
    assume h: "map_of ?d k = Some v"
    show "py_in (str_lower w) v = field_matches ?d k w"
    proof (cases v)
      case (Str u)
      with h have "str_lower u = u" using Record_output_Str_lower [OF assms(2)] by blast
      with h Str show ?thesis by (simp add: field_matches_def)
    next
      case (StrList xs)
      with h show ?thesis by (simp add: field_matches_def)
    qed
  qed
  have fm: "\<And>k w. field_matches ?d k w \<Longrightarrow> \<exists>v. map_of ?d k = Some v"
    by (auto simp: field_matches_def split: option.splits)
  have key: "\<And>k ws. map_of flt k = Some ws \<Longrightarrow> k \<in> set (map fst flt)"
    by (metis domI dom_map_of_conv_image_fst set_map)
  have "(\<exists>k \<in> set (map fst flt). \<exists>ws v. map_of flt k = Some ws \<and> map_of ?d k = Some v
            \<and> (\<exists>w \<in> set ws. py_in (str_lower w) v))
        \<longleftrightarrow> (\<exists>k ws w. map_of flt k = Some ws \<and> w \<in> set ws \<and> field_matches ?d k w)"
    (is "?L \<longleftrightarrow> ?R")
  proof
    assume ?L
    then obtain k ws v w where "map_of flt k = Some ws" "map_of ?d k = Some v" "w \<in> set ws"
      "py_in (str_lower w) v" by blast
    then show ?R using py by blast
  next
    assume ?R
    then obtain k ws w where a: "map_of flt k = Some ws" "w \<in> set ws" "field_matches ?d k w"
      by blast
    from fm [OF a(3)] obtain v where v: "map_of ?d k = Some v" by blast
    with a py have "py_in (str_lower w) v" by blast
    with a v key show ?L by blast
  qed
  then show ?thesis
    unfolding append_record_init [OF assms(1)] nobad by simp
qed

theorem filter_retains_iff_match_witness:
  "Scraper_init ex_date_str ex_today ''cs'' None None 30 300 ex_filters = Inr (ex_scraper ex_filters)
   \<and> Record_init (Some ex_meta) = Inr ex_record
   \<and> map_of ex_filters ''abstract'' = Some [''Diffusion'', ''ControlNet'']
   \<and> field_matches (Record_output ex_record) ''abstract'' ''Diffusion''
   \<and> append_record (ex_scraper ex_filters) [] (Record_output ex_record)
       = Inr [Record_output ex_record]"
proof -
  have keys: "\<forall>k ws. map_of ex_filters k = Some ws
                \<longrightarrow> ws = [] \<or> map_of (Record_output ex_record) k \<noteq> None"
    by (auto simp: ex_filters_def ex_record_output split: if_splits)
  have e: "map_of ex_filters ''abstract'' = Some [''Diffusion'', ''ControlNet'']"
    by (simp add: ex_filters_def)
  have m: "field_matches (Record_output ex_record) ''abstract'' ''Diffusion''"
    by code_simp
  have c: "\<exists>k ws w. map_of ex_filters k = Some ws \<and> w \<in> set ws
             \<and> field_matches (Record_output ex_record) k w"
    using e m by (intro exI [of _ "''abstract''"] exI [of _ "[''Diffusion'', ''ControlNet'']"]
                        exI [of _ "''Diffusion''"]) simp
  have "append_record (ex_scraper ex_filters) [] (Record_output ex_record)
          = Inr [Record_output ex_record]"
    using filter_retains_iff_match [OF ex_scraper_init ex_record_init keys, of "[]"] c
    by simp
  with ex_scraper_init ex_record_init e m show ?thesis by blast
qed

theorem filter_list_field_counterexample:
  "Scraper_init ex_date_str ex_today ''cs'' None None 30 300 [(''authors'', [''Smith''])]
     = Inr (ex_scraper [(''authors'', [''Smith''])])
   \<and> Record_init (Some ex_meta) = Inr ex_record
   \<and> map_of (Record_output ex_record) ''authors'' = Some (StrList [''john smith''])
   \<and> str_in (str_lower ''Smith'') (str_lower ''john smith'')
   \<and> append_record (ex_scraper [(''authors'', [''Smith''])]) [] (Record_output ex_record) = Inr []"
proof -
  have "map_of (Record_output ex_record) ''authors'' = Some (StrList [''john smith''])"
    by (simp add: ex_record_output)
  moreover have "str_in (str_lower ''Smith'') (str_lower ''john smith'')"
    by code_simp
  moreover have
    "append_record (ex_scraper [(''authors'', [''Smith''])]) [] (Record_output ex_record) = Inr []"
    by code_simp
  ultimately show ?thesis using ex_scraper_init ex_record_init by blast
qed

text \<open>
  Claim C5, as amended. For a scraper built by the constructor with the filter dictionary
  \<open>flt\<close> and any record dictionary: handling the record raises if and only if \<open>flt\<close> names a
  field with at least one keyword that is not a key of the record, and what it raises then
  is the \<open>KeyError\<close> of such a field. A field of \<open>flt\<close> with no keyword never makes it raise.
\<close>

theorem filter_raises_iff_absent_field:
  assumes "Scraper_init date_str today category date_from date_until t timeout flt = Inr s"
  shows "((\<exists>e. append_record s ds record = Inl e)
            \<longleftrightarrow> (\<exists>k ws. map_of flt k = Some ws \<and> ws \<noteq> [] \<and> map_of record k = None))
         \<and> (\<forall>e. append_record s ds record = Inl e
                \<longrightarrow> (\<exists>k ws. e = KeyError k \<and> map_of flt k = Some ws \<and> ws \<noteq> []
                              \<and> map_of record k = None))"
proof (cases "flt = []")
  case True
  then show ?thesis by (simp add: append_record_init [OF assms])
next
  case False
  let ?bad = "\<lambda>k. case map_of flt k of None \<Rightarrow> True | Some ws \<Rightarrow> ws \<noteq> [] \<and> map_of record k = None"
  show ?thesis
  proof (cases "List.find ?bad (map fst flt)")
    case None
    then have "\<forall>k ws. map_of flt k = Some ws \<longrightarrow> \<not> (ws \<noteq> [] \<and> map_of record k = None)"
      unfolding find_map_of_fst .
    with None False show ?thesis
      by (auto simp: append_record_init [OF assms])
  next
    case (Some k)
    then have b: "?bad k" and kin: "k \<in> set (map fst flt)"
      by (auto simp: find_Some_iff)
    from kin obtain ws where ws: "map_of flt k = Some ws"
      by (metis domD dom_map_of_conv_image_fst set_map)
    with b have "ws \<noteq> []" "map_of record k = None" by simp_all
    with ws Some False show ?thesis
      by (auto simp: append_record_init [OF assms])
  qed
qed

theorem filter_raises_iff_absent_field_witness:
  "Scraper_init ex_date_str ex_today ''cs'' None None 30 300 [(''journal'', [''nature''])]
     = Inr (ex_scraper [(''journal'', [''nature''])])
   \<and> (\<exists>k ws. map_of [(''journal'', [''nature''])] k = Some ws \<and> ws \<noteq> []
          \<and> map_of (Record_output ex_record) k = None)
   \<and> (\<exists>e. append_record (ex_scraper [(''journal'', [''nature''])]) [] (Record_output ex_record)
              = Inl e)"
proof -
  have "map_of [(''journal'', [''nature''])] ''journal'' = Some [''nature''] \<and> [''nature''] \<noteq> []
          \<and> map_of (Record_output ex_record) ''journal'' = None"
    by (simp add: ex_record_output)
  then have a: "\<exists>k ws. map_of [(''journal'', [''nature''])] k = Some ws \<and> ws \<noteq> []
          \<and> map_of (Record_output ex_record) k = None"
    by blast
  with filter_raises_iff_absent_field [OF ex_scraper_init, of "[(''journal'', [''nature''])]" "[]"
      "Record_output ex_record"]
  have "\<exists>e. append_record (ex_scraper [(''journal'', [''nature''])]) [] (Record_output ex_record)
              = Inl e"
    by blast
  with a ex_scraper_init show ?thesis by blast
qed

theorem filter_absent_field_counterexample:
  "Scraper_init ex_date_str ex_today ''cs'' None None 30 300 [(''journal'', [''nature''])]
     = Inr (ex_scraper [(''journal'', [''nature''])])
   \<and> Record_init (Some ex_meta) = Inr ex_record
   \<and> map_of (Record_output ex_record) ''journal'' = None
   \<and> append_record (ex_scraper [(''journal'', [''nature''])]) [] (Record_output ex_record)
       = Inl (KeyError ''journal'')"
proof -
  have "map_of (Record_output ex_record) ''journal'' = None"
    by (simp add: ex_record_output)
  moreover have "append_record (ex_scraper [(''journal'', [''nature''])]) []
      (Record_output ex_record) = Inl (KeyError ''journal'')"
    by code_simp
  ultimately show ?thesis using ex_scraper_init ex_record_init by blast
qed

section \<open>The record mapper\<close>

text \<open>
  Claim C6. For every metadata fragment the constructor of \<open>Record\<close> returns a record and
  does not raise. In that record each scalar field that is missing or empty in the fragment
  is the empty string; each author name is \<open>forenames\<close>, a blank and \<open>keyname\<close>, where a
  component that is missing is the placeholder \<open>n/a\<close>; and if the affiliation lookup fails
  for one author the affiliation of the whole record is the empty list.
\<close>

theorem Record_init_never_raises:
  "\<exists>r. Record_init (Some x) = Inr r
     \<and> (missing_or_empty x ''id'' \<longrightarrow> r_id r = [])
     \<and> (missing_or_empty x ''title'' \<longrightarrow> r_title r = [])
     \<and> (missing_or_empty x ''abstract'' \<longrightarrow> r_abstract r = [])
     \<and> (missing_or_empty x ''categories'' \<longrightarrow> r_cats r = [])
     \<and> (missing_or_empty x ''created'' \<longrightarrow> r_created r = [])
     \<and> (missing_or_empty x ''updated'' \<longrightarrow> r_updated r = [])
     \<and> (missing_or_empty x ''doi'' \<longrightarrow> r_doi r = [])
     \<and> list_all2
          (\<lambda>a n. \<exists>f l. n = f @ '' '' @ l
              \<and> (child_text a (ARXIV @ ''forenames'') = None \<longrightarrow> f = ''n/a'')
              \<and> (child_text a (ARXIV @ ''keyname'') = None \<longrightarrow> l = ''n/a''))
          (xml_findall x (ARXIV @ ''authors'') (ARXIV @ ''author'')) (r_authors r)
     \<and> ((\<exists>a \<in> set (xml_findall x (ARXIV @ ''authors'') (ARXIV @ ''author'')).
            child_text a (ARXIV @ ''affiliation'') = None)
          \<longrightarrow> r_affiliation r = [])"
proof -
  let ?as = "xml_findall x (ARXIV @ ''authors'') (ARXIV @ ''author'')"
  let ?r = "projr (Record_init (Some x))"
  have r: "Record_init (Some x) = Inr ?r" by (simp add: Record_init_Some)
  have names: "list_all2
          (\<lambda>a n. \<exists>f l. n = f @ '' '' @ l
              \<and> (child_text a (ARXIV @ ''forenames'') = None \<longrightarrow> f = ''n/a'')
              \<and> (child_text a (ARXIV @ ''keyname'') = None \<longrightarrow> l = ''n/a''))
          ?as (r_authors ?r)"
  proof -
    have "r_authors ?r = map (\<lambda>a. get_name a ''forenames'' @ '' '' @ get_name a ''keyname'') ?as"
      by (simp add: Record_init_Some)
    moreover have "\<And>a. \<exists>f l. get_name a ''forenames'' @ '' '' @ get_name a ''keyname'' = f @ '' '' @ l
              \<and> (child_text a (ARXIV @ ''forenames'') = None \<longrightarrow> f = ''n/a'')
              \<and> (child_text a (ARXIV @ ''keyname'') = None \<longrightarrow> l = ''n/a'')"
      by (intro exI conjI, rule refl) (simp_all add: get_name_child lowered_or_na_def)
    ultimately show ?thesis
      by (simp only: list_all2_map2) (simp add: list_all2_same)
  qed
  have aff: "(\<exists>a \<in> set ?as. child_text a (ARXIV @ ''affiliation'') = None) \<longrightarrow> r_affiliation ?r = []"
  proof
    assume "\<exists>a \<in> set ?as. child_text a (ARXIV @ ''affiliation'') = None"
    then have "affiliation_texts ?as = None" by (rule affiliation_texts_None)
    then show "r_affiliation ?r = []" by (simp add: Record_init_Some)
  qed
  have scal:
    "missing_or_empty x ''id'' \<longrightarrow> r_id ?r = []"
    "missing_or_empty x ''title'' \<longrightarrow> r_title ?r = []"
    "missing_or_empty x ''abstract'' \<longrightarrow> r_abstract ?r = []"
    "missing_or_empty x ''categories'' \<longrightarrow> r_cats ?r = []"
    "missing_or_empty x ''created'' \<longrightarrow> r_created ?r = []"
    "missing_or_empty x ''updated'' \<longrightarrow> r_updated ?r = []"
    "missing_or_empty x ''doi'' \<longrightarrow> r_doi ?r = []"
    by (simp_all add: Record_init_Some get_text_missing_or_empty)
  from r names aff scal show ?thesis by blast
qed

theorem Record_init_never_raises_witness:
  "missing_or_empty ex_meta_sparse ''id''
   \<and> missing_or_empty ex_meta_sparse ''title''
   \<and> child_text ex_author_sparse (ARXIV @ ''forenames'') = None
   \<and> child_text ex_author_sparse (ARXIV @ ''affiliation'') = None
   \<and> (\<exists>r. Record_init (Some ex_meta_sparse) = Inr r
          \<and> r_id r = [] \<and> r_title r = []
          \<and> r_authors r = [''n/a doe'', ''john smith'']
          \<and> r_affiliation r = [])"
proof -
  have m: "missing_or_empty ex_meta_sparse ''id''" "missing_or_empty ex_meta_sparse ''title''"
    by code_simp+
  have c: "child_text ex_author_sparse (ARXIV @ ''forenames'') = None"
    "child_text ex_author_sparse (ARXIV @ ''affiliation'') = None"
    by code_simp+
  have as: "xml_findall ex_meta_sparse (ARXIV @ ''authors'') (ARXIV @ ''author'')
              = [ex_author_sparse, ex_author]"
    by code_simp
  have a: "\<exists>a \<in> set (xml_findall ex_meta_sparse (ARXIV @ ''authors'') (ARXIV @ ''author'')).
             child_text a (ARXIV @ ''affiliation'') = None"
    unfolding as using c by simp
  from Record_init_never_raises [of ex_meta_sparse] m a
  obtain r where r: "Record_init (Some ex_meta_sparse) = Inr r"
    and f: "r_id r = []" "r_title r = []" "r_affiliation r = []"
    by blast
  from r have "r = projr (Record_init (Some ex_meta_sparse))" by simp
  moreover have "r_authors (projr (Record_init (Some ex_meta_sparse))) = [''n/a doe'', ''john smith'']"
    by code_simp
  ultimately have "r_authors r = [''n/a doe'', ''john smith'']" by simp
  with m c r f show ?thesis by blast
qed

text \<open>
  Claim C7, as amended. Every scalar value of a record built by the mapper (id, title,
  abstract, categories, created, updated, doi) is the text of its element trimmed of
  surrounding whitespace, then put in lower case, then with each newline replaced by one
  blank (the empty string when there is no text), and the url is a fixed prefix before the
  id; so each of them is normalized: trimming it and putting it in lower case change
  nothing, and it holds no newline. The author name components and the affiliations are put
  in lower case only: each is the text of its element in lower case, of the same length,
  with whitespace and newlines exactly where the text has them (the placeholder \<open>n/a\<close> for
  a name component that is missing, the empty list when an affiliation is missing).
\<close>

theorem Record_values_normalized:
  "\<exists>r. Record_init (Some x) = Inr r
     \<and> r_id r = scalar_value (child_text x (ARXIV @ ''id'')) \<and> normalized (r_id r)
     \<and> r_title r = scalar_value (child_text x (ARXIV @ ''title'')) \<and> normalized (r_title r)
     \<and> r_abstract r = scalar_value (child_text x (ARXIV @ ''abstract''))
     \<and> normalized (r_abstract r)
     \<and> r_cats r = scalar_value (child_text x (ARXIV @ ''categories'')) \<and> normalized (r_cats r)
     \<and> r_created r = scalar_value (child_text x (ARXIV @ ''created''))
     \<and> normalized (r_created r)
     \<and> r_updated r = scalar_value (child_text x (ARXIV @ ''updated''))
     \<and> normalized (r_updated r)
     \<and> r_doi r = scalar_value (child_text x (ARXIV @ ''doi'')) \<and> normalized (r_doi r)
     \<and> r_url r = ''https://arxiv.org/abs/'' @ r_id r \<and> normalized (r_url r)
     \<and> list_all2
          (\<lambda>a n. \<exists>f l. n = f @ '' '' @ l
              \<and> lowered_only (child_text a (ARXIV @ ''forenames'')) f
              \<and> lowered_only (child_text a (ARXIV @ ''keyname'')) l)
          (xml_findall x (ARXIV @ ''authors'') (ARXIV @ ''author'')) (r_authors r)
     \<and> list_all (\<lambda>n. str_lower n = n) (r_authors r)
     \<and> (case those (map (\<lambda>a. child_text a (ARXIV @ ''affiliation''))
                       (xml_findall x (ARXIV @ ''authors'') (ARXIV @ ''author''))) of
          None \<Rightarrow> r_affiliation r = []
        | Some ts \<Rightarrow> list_all2 (\<lambda>s v. lowered_only (Some s) v) ts (r_affiliation r))
     \<and> list_all (\<lambda>a. str_lower a = a) (r_affiliation r)"
proof -
  let ?as = "xml_findall x (ARXIV @ ''authors'') (ARXIV @ ''author'')"
  let ?r = "projr (Record_init (Some x))"
  have r: "Record_init (Some x) = Inr ?r" by (simp add: Record_init_Some)
  note n = Record_scalars_normalized [OF r]
  have sc: "r_id ?r = scalar_value (child_text x (ARXIV @ ''id''))"
    "r_title ?r = scalar_value (child_text x (ARXIV @ ''title''))"
    "r_abstract ?r = scalar_value (child_text x (ARXIV @ ''abstract''))"
    "r_cats ?r = scalar_value (child_text x (ARXIV @ ''categories''))"
    "r_created ?r = scalar_value (child_text x (ARXIV @ ''created''))"
    "r_updated ?r = scalar_value (child_text x (ARXIV @ ''updated''))"
    "r_doi ?r = scalar_value (child_text x (ARXIV @ ''doi''))"
    by (simp_all add: Record_init_Some get_text_scalar_value)
  have url: "r_url ?r = ''https://arxiv.org/abs/'' @ r_id ?r"
    by (simp add: Record_init_Some)
  have au: "r_authors ?r =
         map (\<lambda>a. lowered_or_na (child_text a (ARXIV @ ''forenames'')) @ '' ''
                   @ lowered_or_na (child_text a (ARXIV @ ''keyname''))) ?as"
    by (simp add: Record_init_Some get_name_child)
  have names: "list_all2
          (\<lambda>a n. \<exists>f l. n = f @ '' '' @ l
              \<and> lowered_only (child_text a (ARXIV @ ''forenames'')) f
              \<and> lowered_only (child_text a (ARXIV @ ''keyname'')) l)
          ?as (r_authors ?r)"
  proof -
    have "\<And>a. \<exists>f l. lowered_or_na (child_text a (ARXIV @ ''forenames'')) @ '' ''
                   @ lowered_or_na (child_text a (ARXIV @ ''keyname'')) = f @ '' '' @ l
              \<and> lowered_only (child_text a (ARXIV @ ''forenames'')) f
              \<and> lowered_only (child_text a (ARXIV @ ''keyname'')) l"
      using lowered_only_lowered_or_na by blast
    then show ?thesis
      unfolding au by (simp only: list_all2_map2) (simp add: list_all2_same)
  qed
  have "\<And>a. str_lower (lowered_or_na (child_text a (ARXIV @ ''forenames'')) @ '' ''
                   @ lowered_or_na (child_text a (ARXIV @ ''keyname'')))
            = lowered_or_na (child_text a (ARXIV @ ''forenames'')) @ '' ''
                   @ lowered_or_na (child_text a (ARXIV @ ''keyname''))"
    using str_lower_lowered_or_na by (simp add: str_lower_def lower_char_def)
  then have la: "list_all (\<lambda>n. str_lower n = n) (r_authors ?r)"
    unfolding au by (simp add: list_all_iff)
  have aff: "r_affiliation ?r =
      (case those (map (\<lambda>a. child_text a (ARXIV @ ''affiliation'')) ?as) of
         None \<Rightarrow> [] | Some ts \<Rightarrow> map str_lower ts)"
    by (simp add: Record_init_Some affiliation_texts_those split: option.splits)
  have af: "case those (map (\<lambda>a. child_text a (ARXIV @ ''affiliation'')) ?as) of
          None \<Rightarrow> r_affiliation ?r = []
        | Some ts \<Rightarrow> list_all2 (\<lambda>s v. lowered_only (Some s) v) ts (r_affiliation ?r)"
    unfolding aff
    by (simp add: list_all2_map2 list_all2_same lowered_only_def keeps_whitespace_str_lower
          split: option.splits)
  have lf: "list_all (\<lambda>a. str_lower a = a) (r_affiliation ?r)"
    by (auto simp: Record_init_Some affiliation_texts_lower split: option.splits)
  from r n sc url names la af lf show ?thesis by blast
qed

theorem Record_values_normalized_witness:
  "child_text ex_meta_spaced (ARXIV @ ''title'') = Some ''  On Spaces\<newline>and Lines ''
   \<and> child_text ex_author_spaced (ARXIV @ ''keyname'') = Some '' Smith\<newline>''
   \<and> child_text ex_author_spaced (ARXIV @ ''affiliation'') = Some '' MIT\<newline>''
   \<and> (\<exists>r. Record_init (Some ex_meta_spaced) = Inr r
          \<and> r_title r = ''on spaces and lines'' \<and> normalized (r_title r)
          \<and> r_authors r = [''john  smith\<newline>'']
          \<and> r_affiliation r = ['' mit\<newline>''])"
proof -
  have c: "child_text ex_meta_spaced (ARXIV @ ''title'') = Some ''  On Spaces\<newline>and Lines ''"
    "child_text ex_author_spaced (ARXIV @ ''keyname'') = Some '' Smith\<newline>''"
    "child_text ex_author_spaced (ARXIV @ ''affiliation'') = Some '' MIT\<newline>''"
    by code_simp+
  have s: "scalar_value (Some ''  On Spaces\<newline>and Lines '') = ''on spaces and lines''"
    by code_simp
  from Record_values_normalized [of ex_meta_spaced]
  obtain r where r: "Record_init (Some ex_meta_spaced) = Inr r"
    and t: "r_title r = scalar_value (child_text ex_meta_spaced (ARXIV @ ''title''))"
    and n: "normalized (r_title r)"
    by blast
  from r have e: "r = projr (Record_init (Some ex_meta_spaced))" by simp
  have "r_authors (projr (Record_init (Some ex_meta_spaced))) = [''john  smith\<newline>'']"
    "r_affiliation (projr (Record_init (Some ex_meta_spaced))) = ['' mit\<newline>'']"
    by code_simp+
  with e have a: "r_authors r = [''john  smith\<newline>'']" "r_affiliation r = ['' mit\<newline>'']"
    by simp_all
  from t c s have "r_title r = ''on spaces and lines''" by simp
  with c r n a show ?thesis by blast
qed

theorem author_name_counterexample:
  "Record_init (Some ex_meta_spaced) = Inr (projr (Record_init (Some ex_meta_spaced)))
   \<and> get_name ex_author_spaced ''keyname'' = '' smith\<newline>''
   \<and> \<not> normalized (get_name ex_author_spaced ''keyname'')
   \<and> r_authors (projr (Record_init (Some ex_meta_spaced))) = [''john  smith\<newline>'']"
proof -
  have "get_name ex_author_spaced ''keyname'' = '' smith\<newline>''" by code_simp
  moreover have "\<not> normalized (get_name ex_author_spaced ''keyname'')" by code_simp
  moreover have "r_authors (projr (Record_init (Some ex_meta_spaced))) = [''john  smith\<newline>'']"
    by code_simp
  ultimately show ?thesis by (simp add: Record_init_Some)
qed

section \<open>The default dates of the constructor\<close>

text \<open>
  Claim C8 fails on the code: when \<open>date_from\<close> is supplied and \<open>date_until\<close> is omitted, the
  constructor reads the local variable \<open>yesterday\<close>, which is bound only in the branch where
  \<open>date_from\<close> is omitted, and raises \<open>UnboundLocalError\<close>.
\<close>

theorem Scraper_init_date_until_omitted:
  "Scraper_init date_str today category (Some d) None t timeout flt = Inl UnboundLocalError"
  by (simp add: Scraper_init_def)

section \<open>The renderer\<close>

text \<open>
  Claim C9. For a metadata fragment whose title element has the text \<open>A Study of X\<close>, the
  mapper gives the title \<open>a study of x\<close>, and the file that \<open>generate_html\<close> writes for the
  record holds the anchor that links to the record's url with exactly that lowercased
  title as its visible text: the renderer writes the title as the mapper made it.
\<close>

theorem title_round_trip:
  assumes "child_text x (ARXIV @ ''title'') = Some ''A Study of X''"
  shows "\<exists>r html. Record_init (Some x) = Inr r
           \<and> r_title r = ''a study of x''
           \<and> generate_html repr_list strftime today [Record_output r] filename
               = Inr (filename, html)
           \<and> str_in (anchor (r_url r) ''a study of x'') html"
proof -
  let ?r = "projr (Record_init (Some x))"
  have r: "Record_init (Some x) = Inr ?r" by (simp add: Record_init_Some)
  have n: "replace_newline (str_lower (str_strip ''A Study of X'')) = ''a study of x''"
    by code_simp
  have t: "r_title ?r = ''a study of x''"
    using assms n by (simp add: Record_init_Some get_text_child)
  from generate_html_single_anchor [of repr_list strftime today ?r filename]
  obtain html where "generate_html repr_list strftime today [Record_output ?r] filename
               = Inr (filename, html)" "str_in (anchor (r_url ?r) (r_title ?r)) html"
    by blast
  with r t show ?thesis by (metis (no_types, lifting))
qed

theorem title_round_trip_witness:
  "child_text ex_meta (ARXIV @ ''title'') = Some ''A Study of X''
   \<and> Record_init (Some ex_meta) = Inr ex_record
   \<and> r_title ex_record = ''a study of x''
   \<and> (\<exists>html. generate_html (\<lambda>xs. []) ex_date_str ex_today [Record_output ex_record] ''arxiv_papers.html''
                 = Inr (''arxiv_papers.html'', html)
          \<and> str_in (anchor ''https://arxiv.org/abs/2401.00001'' ''a study of x'') html)"
proof -
  have h: "child_text ex_meta (ARXIV @ ''title'') = Some ''A Study of X''" by code_simp
  have u: "r_url ex_record = ''https://arxiv.org/abs/2401.00001''" by code_simp
  from title_round_trip [OF h, of "\<lambda>xs. []" ex_date_str ex_today "''arxiv_papers.html''"]
  obtain r html where r: "Record_init (Some ex_meta) = Inr r" "r_title r = ''a study of x''"
    "generate_html (\<lambda>xs. []) ex_date_str ex_today [Record_output r] ''arxiv_papers.html''
       = Inr (''arxiv_papers.html'', html)"
    "str_in (anchor (r_url r) ''a study of x'') html"
    by blast
  from r(1) ex_record_init have "r = ex_record" by simp
  with r u h ex_record_init show ?thesis by auto
qed

section \<open>One append for each record\<close>

text \<open>
  Claim C10. Whatever the filter configuration, handling one record either leaves the list
  \<open>ds\<close> as it is or appends that record once at its end, also when several (field,
  keyword) pairs match; and the records that the loop over a page appends are the
  dictionaries of the page's records with some of them left out, in the order of the page.
\<close>

theorem record_appended_at_most_once:
  "(append_record s ds record = Inr ds' \<longrightarrow> ds' = ds \<or> ds' = ds @ [record])
   \<and> (records_loop s recs ds = Inr ds''
        \<longrightarrow> (\<exists>new. ds'' = ds @ new \<and> subseq new (map dict_of recs)))"
  using append_record_cases records_loop_subseq by blast

theorem record_appended_at_most_once_witness:
  "field_matches (Record_output ex_record) ''title'' ''Study''
   \<and> field_matches (Record_output ex_record) ''abstract'' ''Diffusion''
   \<and> append_record (ex_scraper ex_filters) [] (Record_output ex_record)
       = Inr [Record_output ex_record]
   \<and> records_loop (ex_scraper ex_filters) [ex_record_xml, ex_record_xml] []
       = Inr [Record_output ex_record, Record_output ex_record]
   \<and> ([Record_output ex_record] = [] \<or> [Record_output ex_record] = [] @ [Record_output ex_record])
   \<and> (\<exists>new. [Record_output ex_record, Record_output ex_record] = [] @ new
          \<and> subseq new (map dict_of [ex_record_xml, ex_record_xml]))"
proof -
  have m: "field_matches (Record_output ex_record) ''title'' ''Study''"
    "field_matches (Record_output ex_record) ''abstract'' ''Diffusion''"
    by code_simp+
  have a: "append_record (ex_scraper ex_filters) [] (Record_output ex_record)
             = Inr [Record_output ex_record]"
    by code_simp
  have l: "records_loop (ex_scraper ex_filters) [ex_record_xml, ex_record_xml] []
             = Inr [Record_output ex_record, Record_output ex_record]"
    by code_simp
  from record_appended_at_most_once [of "ex_scraper ex_filters" "[]" "Record_output ex_record"
      "[Record_output ex_record]" "[ex_record_xml, ex_record_xml]"
      "[Record_output ex_record, Record_output ex_record]"] a l
  have "([Record_output ex_record] = [] \<or> [Record_output ex_record] = [] @ [Record_output ex_record])
    \<and> (\<exists>new. [Record_output ex_record, Record_output ex_record] = [] @ new
          \<and> subseq new (map dict_of [ex_record_xml, ex_record_xml]))"
    by blast
  with m a l show ?thesis by blast
qed

end
